theory Spec2Isabelle
  imports Complex_Main
begin

section \<open>Bringing up the PVM daemon (PBala.c, lines 274-286)\<close>

text \<open>
  The values of the master's exit codes come from PBala\_errcodes.h, which is not part of
  the sources at hand; only their names matter, so they are kept symbolic.
\<close>

datatype exit_code =
    EXIT_SUCCESS
  | E_PVM_DUP
  | E_PVM_SPAWN
  | E_DATAFILE_FIRSTCOL
  | E_IO

text \<open>
  What one call of \<^verbatim>\<open>pvm_start_pvmd\<close> returns: the loop only asks whether the
  status is \<^verbatim>\<open>PvmDupHost\<close>.
\<close>

datatype start_status = PvmDupHost | PvmStatus int

datatype pvmd_action = Start_pvmd | Pvm_halt | Rm_tmp_pvm

datatype pvmd_outcome = Pvmd_started start_status | Pvmd_return exit_code

text \<open>
  \<^verbatim>\<open>
    int start_tries = 0;
    while ((start_status = pvm_start_pvmd(pvmd_argc, pvmd_argv, 1)) == PvmDupHost) {
        ++start_tries;
        pvm_halt();
        system("rm -f /tmp/pvm*");
        if (start_tries > 3)
            return E_PVM_DUP;
    }
  \<close>
  The daemon is the environment: \<open>env k\<close> is the status of the call made when
  \<open>start_tries = k\<close> (the counter grows by one with every call). The loop returns the
  actions taken, in order, and how it was left.
\<close>

function start_loop :: "(nat \<Rightarrow> start_status) \<Rightarrow> nat \<Rightarrow> pvmd_action list \<times> pvmd_outcome" where
  "start_loop env start_tries =
     (case env start_tries of
        PvmStatus c \<Rightarrow> ([Start_pvmd], Pvmd_started (PvmStatus c))
      | PvmDupHost \<Rightarrow>
          (if Suc start_tries > 3
           then ([Start_pvmd, Pvm_halt, Rm_tmp_pvm], Pvmd_return E_PVM_DUP)
           else (let (acts, out) = start_loop env (Suc start_tries)
                 in ([Start_pvmd, Pvm_halt, Rm_tmp_pvm] @ acts, out))))"
  by pat_completeness auto
termination
  by (relation "measure (\<lambda>(env, start_tries). 4 - start_tries)") auto

declare start_loop.simps [simp del]

definition start_pvmd :: "(nat \<Rightarrow> start_status) \<Rightarrow> pvmd_action list \<times> pvmd_outcome" where
  "start_pvmd env = start_loop env 0"

text \<open>
  The number of calls, among the first four, that report a duplicate host before the
  first call that does not.
\<close>

definition dup_reports :: "(nat \<Rightarrow> start_status) \<Rightarrow> nat \<Rightarrow> nat" where
  "dup_reports env k = length (takeWhile (\<lambda>j. env j = PvmDupHost) [k..<4])"

section \<open>The wire format\<close>

text \<open>
  A PVM send buffer is the sequence of the items packed into it. The tags and the
  status \<^verbatim>\<open>ST_MEM_ERR\<close> are defined in PBala\_config.h and PBala\_errcodes.h, which
  are not part of the sources at hand: the tags are kept symbolic, and the integer each
  stands for (it is packed as \<^verbatim>\<open>work_code\<close>) is a parameter, as is
  \<^verbatim>\<open>ST_MEM_ERR\<close>. The two worker statuses are those of antz\_errcodes.h.
\<close>

datatype item = PInt int | PLong int | PStr string | PDouble real

type_synonym msg = "item list"

datatype msg_tag = MSG_GREETING | MSG_WORK | MSG_RESULT | MSG_STOP

record pbala_config =
  tag_value :: "msg_tag \<Rightarrow> int"
  ST_MEM_ERR :: int

definition ST_FORK_ERR :: int where
  "ST_FORK_ERR = 10"

definition ST_TASK_KILLED :: int where
  "ST_TASK_KILLED = 11"

text \<open>
  \<^verbatim>\<open>pvm_upkint(&x,1,1)\<close> and its siblings read the next item of the receive buffer
  into a variable. Neither program checks the return code: when the buffer has no such
  item next, the variable keeps the value it had and the buffer stays where it is. Each
  function takes the old value of the variable and the rest of the buffer.
\<close>

fun pvm_upkint :: "int \<Rightarrow> msg \<Rightarrow> int \<times> msg" where
  "pvm_upkint old (PInt v # b) = (v, b)"
| "pvm_upkint old b = (old, b)"

fun pvm_upklong :: "int \<Rightarrow> msg \<Rightarrow> int \<times> msg" where
  "pvm_upklong old (PLong v # b) = (v, b)"
| "pvm_upklong old b = (old, b)"

fun pvm_upkstr :: "string \<Rightarrow> msg \<Rightarrow> string \<times> msg" where
  "pvm_upkstr old (PStr v # b) = (v, b)"
| "pvm_upkstr old b = (old, b)"

fun pvm_upkdouble :: "real \<Rightarrow> msg \<Rightarrow> real \<times> msg" where
  "pvm_upkdouble old (PDouble v # b) = (v, b)"
| "pvm_upkdouble old b = (old, b)"

section \<open>Printing and scanning decimal integers\<close>

text \<open>\<^verbatim>\<open>sprintf(.., "%d", n)\<close>: the decimal digits of \<open>n\<close>, after a minus sign when negative.\<close>

definition digit_char :: "nat \<Rightarrow> char" where
  "digit_char d = ''0123456789'' ! d"

fun show_nat :: "nat \<Rightarrow> string" where
  "show_nat n = (if n < 10 then [digit_char n] else show_nat (n div 10) @ [digit_char (n mod 10)])"

declare show_nat.simps [simp del]

definition show_int :: "int \<Rightarrow> string" where
  "show_int i = (if i < 0 then CHR ''-'' # show_nat (nat (- i)) else show_nat (nat i))"

text \<open>
  \<^verbatim>\<open>sscanf(buffer, "%d", &taskNumber)\<close>: white space is skipped, then an optional sign
  and a non-empty run of digits are read. Anything else converts nothing (the call
  returns 0 or EOF, not 1). A number that an \<^verbatim>\<open>int\<close> of 32 bits cannot hold
  is undefined behaviour in C, and is kept apart.
\<close>

definition isspace :: "char \<Rightarrow> bool" where
  "isspace c = (c \<in> set [CHR 0x20, CHR 0x09, CHR 0x0A, CHR 0x0B, CHR 0x0C, CHR 0x0D])"

definition isdigit :: "char \<Rightarrow> bool" where
  "isdigit c = (c \<in> set ''0123456789'')"

definition digit_val :: "char \<Rightarrow> nat" where
  "digit_val c = of_char c - 48"

definition digits_val :: "string \<Rightarrow> nat" where
  "digits_val ds = foldl (\<lambda>a c. 10 * a + digit_val c) 0 ds"

datatype scan = NoMatch | OutOfRange | Scanned int

definition sscanf_d :: "string \<Rightarrow> scan" where
  "sscanf_d buffer =
     (let s1 = dropWhile isspace buffer;
          neg = (case s1 of c # r \<Rightarrow> c = CHR ''-'' | [] \<Rightarrow> False);
          s2 = (case s1 of c # r \<Rightarrow> if c = CHR ''-'' \<or> c = CHR ''+'' then r else s1 | [] \<Rightarrow> s1);
          ds = takeWhile isdigit s2;
          v = (if neg then - int (digits_val ds) else int (digits_val ds))
      in if ds = [] then NoMatch
         else if - 2147483648 \<le> v \<and> v \<le> 2147483647 then Scanned v
         else OutOfRange)"

section \<open>The worker (task\_fork.c)\<close>

text \<open>
  The variables of \<^verbatim>\<open>main\<close> that the messages fill. They are not initialised in
  the source, so the record a run starts from is arbitrary.
\<close>

record task_vars =
  w_me :: int
  w_task_type :: int
  w_max_task_size :: int
  w_work_code :: int
  w_taskNumber :: int
  w_inp_programFile :: string
  w_out_dir :: string
  w_arguments :: string

text \<open>
  What \<^verbatim>\<open>waitid(P_PID, pid, &infop, WEXITED)\<close> stores in \<^verbatim>\<open>infop\<close>: how the
  child ended (\<^verbatim>\<open>si_code\<close>) and its exit status or signal (\<^verbatim>\<open>si_status\<close>).
\<close>

datatype siginfo = CLD_EXITED int | CLD_KILLED int | CLD_DUMPED int

text \<open>\<^verbatim>\<open>fork()\<close> as the worker sees it: a negative pid, or the pid of the child.\<close>

datatype fork_result = Fork_failed | Fork_child nat siginfo

text \<open>
  One turn of the \<^verbatim>\<open>while (1)\<close> loop, as the environment decides it: either
  \<^verbatim>\<open>memcheck\<close> (of antz\_lib, not at hand) returns 1, or it does not and
  \<^verbatim>\<open>pvm_recv(myparent, MSG_WORK)\<close> delivers a message; the \<open>fork_result\<close> says
  how the fork for that message goes and, for a child, what \<^verbatim>\<open>waitid\<close> will
  report (it is not looked at when the message is a stop).
\<close>

datatype task_event = Memcheck_defer | Recv_work msg fork_result

text \<open>
  The system calls of the forked child before it executes the user program. The last
  step names the branch taken on \<^verbatim>\<open>task_type\<close>; how each branch builds its
  argument vector is not modelled. A child of any other task type leaves the
  \<^verbatim>\<open>if (pid == 0)\<close> block without executing anything.
\<close>

datatype open_flag = O_WRONLY | O_CREAT

datatype child_step =
    Sys_open string "open_flag list" nat
  | Sys_dup2 nat
  | Sys_close
  | Execvp_maple
  | Execvp_c
  | Execvp_python
  | No_exec

definition mode_0666 :: nat where
  "mode_0666 = 6 * 64 + 6 * 8 + 6"

definition child_code :: "task_vars \<Rightarrow> child_step list" where
  "child_code v =
     [Sys_open (w_out_dir v @ ''/'' @ show_int (w_taskNumber v) @ ''_out.txt'')
        [O_WRONLY, O_CREAT] mode_0666,
      Sys_dup2 1,
      Sys_close,
      Sys_open (w_out_dir v @ ''/'' @ show_int (w_taskNumber v) @ ''_err.txt'')
        [O_WRONLY, O_CREAT] mode_0666,
      Sys_dup2 2,
      Sys_close,
      (if w_task_type v = 0 then Execvp_maple
       else if w_task_type v = 1 then Execvp_c
       else if w_task_type v = 2 then Execvp_python
       else No_exec)]"

text \<open>What the worker does, in order, and how its run ends.\<close>

datatype task_action =
    Sleep nat
  | Stderr_could_not_spawn int
  | Forked "child_step list"
  | Prtusage nat int string
  | Pvm_send_result msg
  | Pvm_exit

datatype task_end = Exit_status int | Waiting

text \<open>Lines 79-85: the items of a work message, read into the variables.\<close>

definition upk_work_code :: "task_vars \<Rightarrow> msg \<Rightarrow> task_vars \<times> msg" where
  "upk_work_code v m =
     (case pvm_upkint (w_work_code v) m of (c, b) \<Rightarrow> (v\<lparr>w_work_code := c\<rparr>, b))"

definition upk_work :: "task_vars \<Rightarrow> msg \<Rightarrow> task_vars" where
  "upk_work v b =
     (case pvm_upkint (w_taskNumber v) b of (n, b1) \<Rightarrow>
      case pvm_upkstr (w_inp_programFile v) b1 of (p, b2) \<Rightarrow>
      case pvm_upkstr (w_out_dir v) b2 of (d, b3) \<Rightarrow>
      case pvm_upkstr (w_arguments v) b3 of (a, b4) \<Rightarrow>
        v\<lparr>w_taskNumber := n, w_inp_programFile := p, w_out_dir := d, w_arguments := a\<rparr>)"

text \<open>
  The loop of lines 67-234 over the turns the environment provides. When they run out
  the worker is still in the loop (asleep, or blocked in \<^verbatim>\<open>pvm_recv\<close>).
\<close>

fun task_loop :: "pbala_config \<Rightarrow> task_vars \<Rightarrow> task_event list \<Rightarrow> task_action list \<times> task_end" where
  "task_loop K v [] = ([], Waiting)"
| "task_loop K v (Memcheck_defer # es) =
     (case task_loop K v es of (acts, e) \<Rightarrow> (Sleep 60 # acts, e))"
| "task_loop K v (Recv_work m fr # es) =
     (case upk_work_code v m of (v1, b) \<Rightarrow>
      if w_work_code v1 = tag_value K MSG_STOP then ([Pvm_exit], Exit_status 0)
      else
        (let v2 = upk_work v1 b in
         case fr of
           Fork_failed \<Rightarrow>
             ([Stderr_could_not_spawn (w_taskNumber v2),
               Pvm_send_result [PInt (w_me v2), PInt (w_taskNumber v2), PInt 1],
               Pvm_exit],
              Exit_status 1)
         | Fork_child pid infop \<Rightarrow>
             (case task_loop K v2 es of (acts, e) \<Rightarrow>
                (Forked (child_code v2) #
                 Prtusage pid (w_taskNumber v2) (w_out_dir v2) #
                 Pvm_send_result [PInt (w_me v2), PInt (w_taskNumber v2), PInt 0] #
                 acts, e))))"

text \<open>Lines 53-64: the greeting fills three variables; then the loop runs.\<close>

definition upk_greeting :: "task_vars \<Rightarrow> msg \<Rightarrow> task_vars" where
  "upk_greeting v g =
     (case pvm_upkint (w_me v) g of (i, b1) \<Rightarrow>
      case pvm_upkint (w_task_type v) b1 of (t, b2) \<Rightarrow>
      case pvm_upklong (w_max_task_size v) b2 of (s, b3) \<Rightarrow>
        v\<lparr>w_me := i, w_task_type := t, w_max_task_size := s\<rparr>)"

definition task_main :: "pbala_config \<Rightarrow> task_vars \<Rightarrow> msg \<Rightarrow> task_event list \<Rightarrow> task_action list \<times> task_end" where
  "task_main K v g es = task_loop K (upk_greeting v g) es"

section \<open>The master (PBala.c, from line 347)\<close>

text \<open>
  The fields of \<^verbatim>\<open>struct arguments\<close> that reach the workers.
\<close>

record arguments =
  max_mem_size :: int
  create_err :: int
  create_mem :: int
  custom_path :: int
  program_path :: string

text \<open>
  What \<^verbatim>\<open>main\<close> has read by line 347, and the answers of its collaborators:
  \<open>nTasks\<close> is what \<^verbatim>\<open>getLineCount\<close> returned for the data file,
  \<open>numt k\<close> what \<^verbatim>\<open>pvm_spawn\<close> returns for slot \<open>k\<close>, and the three
  script writers (of PBala\_lib, not at hand) return -1 on an i/o error. A node with
  \<open>c\<close> cores is the entry \<open>c\<close> of \<open>nodeCores\<close>.
\<close>

record run_input =
  task_type :: int
  inp_programFile :: string
  out_dir :: string
  arguments :: arguments
  nodeCores :: "nat list"
  nTasks :: nat
  numt :: "nat \<Rightarrow> int"
  parifile :: "int \<Rightarrow> string \<Rightarrow> string \<Rightarrow> string \<Rightarrow> int"
  sagefile :: "int \<Rightarrow> string \<Rightarrow> string \<Rightarrow> string \<Rightarrow> int"
  octavefile :: "int \<Rightarrow> string \<Rightarrow> string \<Rightarrow> string \<Rightarrow> int"

definition maxConcurrentTasks :: "run_input \<Rightarrow> nat" where
  "maxConcurrentTasks R = sum_list (nodeCores R)"

definition firstBatchSize :: "run_input \<Rightarrow> nat" where
  "firstBatchSize R =
     (if nTasks R < maxConcurrentTasks R then nTasks R else maxConcurrentTasks R)"

text \<open>
  The messages of a run in the order the master sends and receives them:
  \<open>Send k t m\<close> is \<^verbatim>\<open>pvm_send(taskId[k], t)\<close> of the buffer \<open>m\<close>, and
  \<open>Recv m\<close> is a \<^verbatim>\<open>pvm_recv(-1, MSG_RESULT)\<close> that returned \<open>m\<close>.
\<close>

datatype comm_event = Send nat msg_tag msg | Recv msg

text \<open>The lines the master prints about slots and tasks (stdout and stderr).\<close>

datatype out_line =
    CREATED_SLAVE int
  | CREATED_SCRIPT int
  | TASK_SENT int
  | ERROR_out_of_memory int int
  | ERROR_could_not_fork int int
  | ERROR_stopped_or_killed int
  | TASK_COMPLETED int real
  | INFO_shutting_down int real

text \<open>
  The state of the master: the data file as the lines that successive \<^verbatim>\<open>fgets\<close>
  calls are still to return (each with its newline), the results that
  \<^verbatim>\<open>pvm_recv\<close> is still to deliver, the variables of \<^verbatim>\<open>main\<close>, the unread
  rest of the receive buffer, the content of unfinished\_tasks.txt (\<open>None\<close> when the
  file does not exist), and what has been sent, received and printed so far.
  node\_info.txt and the other printed lines are left out.
\<close>

record master =
  f_data :: "string list"
  inbox :: "msg list"
  itid :: int
  taskNumber :: int
  status :: int
  aux_str :: string
  exec_time :: real
  total_time :: real
  total_total_time :: real
  rbuf :: msg
  unfinishedTasks :: "string option"
  unfinished_tasks_present :: bool
  comm :: "comm_event list"
  stdio :: "out_line list"

text \<open>
  How a piece of \<^verbatim>\<open>main\<close> ends: it goes on, it returns from \<^verbatim>\<open>main\<close>, it
  waits for a result that never comes, or it does what C leaves undefined (a task id
  out of range of \<^verbatim>\<open>int\<close>, an index outside \<^verbatim>\<open>taskId\<close> or past the end of
  the line read).
\<close>

datatype outcome = Continue master | Return exit_code master | Blocked master | Undefined

definition andthen :: "outcome \<Rightarrow> (master \<Rightarrow> outcome) \<Rightarrow> outcome" where
  "andthen r f = (case r of Continue s \<Rightarrow> f s | Return c s \<Rightarrow> Return c s
                  | Blocked s \<Rightarrow> Blocked s | Undefined \<Rightarrow> Undefined)"

text \<open>Lines 365-375: the greeting packed for the slot \<open>k\<close>.\<close>

definition greeting :: "run_input \<Rightarrow> int \<Rightarrow> msg" where
  "greeting R k =
     [PInt k, PInt (task_type R), PLong (max_mem_size (arguments R)),
      PInt (create_err (arguments R)), PInt (create_mem (arguments R)),
      PInt (custom_path (arguments R))] @
     (if custom_path (arguments R) \<noteq> 0 then [PStr (program_path (arguments R))] else [])"

text \<open>Lines 354-386: the body of the two loops over nodes and cores.\<close>

definition spawn_slot :: "run_input \<Rightarrow> master \<Rightarrow> outcome" where
  "spawn_slot R s =
     (if numt R (nat (itid s)) \<noteq> 1 then Return E_PVM_SPAWN s
      else Continue (s\<lparr>comm := comm s @ [Send (nat (itid s)) MSG_GREETING (greeting R (itid s))],
                       stdio := stdio s @ [CREATED_SLAVE (itid s)],
                       itid := itid s + 1\<rparr>))"

primrec spawn_cores :: "run_input \<Rightarrow> nat \<Rightarrow> master \<Rightarrow> outcome" where
  "spawn_cores R 0 s = Continue s"
| "spawn_cores R (Suc j) s = andthen (spawn_slot R s) (spawn_cores R j)"

primrec spawn_nodes :: "run_input \<Rightarrow> nat list \<Rightarrow> master \<Rightarrow> outcome" where
  "spawn_nodes R [] s = Continue s"
| "spawn_nodes R (c # cs) s = andthen (spawn_cores R c s) (spawn_nodes R cs)"

text \<open>
  Lines 400-449 and again 510-558: a line of the data file becomes a work message for
  the slot \<open>slot\<close>. The task id is scanned, printed again to count its characters,
  and the line without its last character is copied from one past that count. The
  copy may start at the terminator that replaced the last character or at the one
  \<^verbatim>\<open>fgets\<close> wrote after it (both give the empty string), and no further.
  \<^verbatim>\<open>work_code\<close> holds \<^verbatim>\<open>MSG_GREETING\<close> (line 397) whenever this runs.
\<close>

definition send_task :: "pbala_config \<Rightarrow> run_input \<Rightarrow> int \<Rightarrow> string \<Rightarrow> master \<Rightarrow> outcome" where
  "send_task K R slot buffer s =
     (case sscanf_d buffer of
        NoMatch \<Rightarrow> Return E_DATAFILE_FIRSTCOL s
      | OutOfRange \<Rightarrow> Undefined
      | Scanned n \<Rightarrow>
          (let aux_size = length (show_int n) in
           if buffer = [] \<or> length buffer < aux_size + 1 then Undefined
           else
             (let a = drop (aux_size + 1) (butlast buffer);
                  s1 = s\<lparr>taskNumber := n, aux_str := a\<rparr>
              in if task_type R = 3 \<and> parifile R n a (inp_programFile R) (out_dir R) = - 1
                 then Return E_IO s1
                 else if task_type R = 4 \<and> sagefile R n a (inp_programFile R) (out_dir R) = - 1
                 then Return E_IO s1
                 else if task_type R = 5 \<and> octavefile R n a (inp_programFile R) (out_dir R) = - 1
                 then Return E_IO s1
                 else if slot < 0 \<or> int (maxConcurrentTasks R) \<le> slot then Undefined
                 else Continue
                   (s1\<lparr>comm := comm s1 @
                          [Send (nat slot) MSG_WORK
                             [PInt (tag_value K MSG_GREETING), PInt n,
                              PStr (inp_programFile R), PStr (out_dir R), PStr a]],
                        stdio := stdio s1 @
                          (if task_type R = 3 \<or> task_type R = 4 \<or> task_type R = 5
                           then [CREATED_SCRIPT n] else []) @ [TASK_SENT n]\<rparr>))))"

text \<open>\<^verbatim>\<open>if (fgets(buffer, BUFFER_SIZE, f_data) != NULL) { ... }\<close>\<close>

definition next_task :: "pbala_config \<Rightarrow> run_input \<Rightarrow> int \<Rightarrow> master \<Rightarrow> outcome" where
  "next_task K R slot s =
     (case f_data s of
        [] \<Rightarrow> Continue s
      | buffer # rest \<Rightarrow> send_task K R slot buffer (s\<lparr>f_data := rest\<rparr>))"

text \<open>Lines 398-451: \<^verbatim>\<open>for (i = 0; i < firstBatchSize; i++)\<close>, with \<open>n\<close> turns left.\<close>

primrec first_batch :: "pbala_config \<Rightarrow> run_input \<Rightarrow> nat \<Rightarrow> nat \<Rightarrow> master \<Rightarrow> outcome" where
  "first_batch K R 0 i s = Continue s"
| "first_batch K R (Suc n) i s =
     andthen (next_task K R (int i) s) (first_batch K R n (Suc i))"

text \<open>\<^verbatim>\<open>fprintf(unfinishedTasks, "%d,%s\n", taskNumber, aux_str)\<close> on the file opened for appending.\<close>

definition append_unfinished :: "master \<Rightarrow> master" where
  "append_unfinished s =
     s\<lparr>unfinishedTasks :=
          Some ((case unfinishedTasks s of None \<Rightarrow> [] | Some c \<Rightarrow> c) @
                show_int (taskNumber s) @ '','' @ aux_str s @ [CHR 0x0A]),
        unfinished_tasks_present := True\<rparr>"

text \<open>Lines 467-504 and again 629-666: one result is received and classified.\<close>

definition recv_result :: "pbala_config \<Rightarrow> master \<Rightarrow> outcome" where
  "recv_result K s =
     (case inbox s of
        [] \<Rightarrow> Blocked s
      | m # ms \<Rightarrow>
         (case pvm_upkint (itid s) m of (i, b1) \<Rightarrow>
          case pvm_upkint (taskNumber s) b1 of (n, b2) \<Rightarrow>
          case pvm_upkint (status s) b2 of (st, b3) \<Rightarrow>
          case pvm_upkstr (aux_str s) b3 of (a, b4) \<Rightarrow>
            (let s1 = s\<lparr>inbox := ms, comm := comm s @ [Recv m], itid := i,
                         taskNumber := n, status := st, aux_str := a, rbuf := b4\<rparr>
             in if st = ST_MEM_ERR K
                then Continue (append_unfinished
                       (s1\<lparr>stdio := stdio s1 @ [ERROR_out_of_memory n i]\<rparr>))
                else if st = ST_FORK_ERR
                then Continue (append_unfinished
                       (s1\<lparr>stdio := stdio s1 @ [ERROR_could_not_fork n i]\<rparr>))
                else
                  (case pvm_upkdouble (exec_time s1) b4 of (e, b5) \<Rightarrow>
                     if st = ST_TASK_KILLED
                     then Continue (append_unfinished
                            (s1\<lparr>exec_time := e, rbuf := b5,
                                 stdio := stdio s1 @ [ERROR_stopped_or_killed n]\<rparr>))
                     else Continue
                            (s1\<lparr>exec_time := e, rbuf := b5,
                                 stdio := stdio s1 @ [TASK_COMPLETED n e]\<rparr>)))))"

text \<open>Lines 465-559: one turn of the loop that runs while tasks are left to assign.\<close>

definition steady_step :: "pbala_config \<Rightarrow> run_input \<Rightarrow> master \<Rightarrow> outcome" where
  "steady_step K R s = andthen (recv_result K s) (\<lambda>s1. next_task K R (itid s1) s1)"

primrec steady :: "pbala_config \<Rightarrow> run_input \<Rightarrow> nat \<Rightarrow> master \<Rightarrow> outcome" where
  "steady K R 0 s = Continue s"
| "steady K R (Suc n) s = andthen (steady_step K R s) (steady K R n)"

text \<open>Lines 627-676: one turn of the last loop; \<^verbatim>\<open>work_code\<close> holds \<^verbatim>\<open>MSG_STOP\<close>.\<close>

definition drain_step :: "pbala_config \<Rightarrow> run_input \<Rightarrow> master \<Rightarrow> outcome" where
  "drain_step K R s =
     andthen (recv_result K s) (\<lambda>s1.
       case pvm_upkdouble (total_time s1) (rbuf s1) of (t, b) \<Rightarrow>
         if itid s1 < 0 \<or> int (maxConcurrentTasks R) \<le> itid s1 then Undefined
         else Continue
           (s1\<lparr>total_time := t, rbuf := b,
                comm := comm s1 @ [Send (nat (itid s1)) MSG_STOP [PInt (tag_value K MSG_STOP)]],
                stdio := stdio s1 @ [INFO_shutting_down (itid s1) t],
                total_total_time := total_total_time s1 + t\<rparr>))"

primrec drain :: "pbala_config \<Rightarrow> run_input \<Rightarrow> nat \<Rightarrow> master \<Rightarrow> outcome" where
  "drain K R 0 s = Continue s"
| "drain K R (Suc n) s = andthen (drain_step K R s) (drain K R n)"

text \<open>
  \<^verbatim>\<open>main\<close> from line 347 to its end: the fleet, the first batch, the empty
  unfinished\_tasks.txt, the tasks beyond the first batch, the last results, and the
  removal of unfinished\_tasks.txt when nothing was written to it. What is sent,
  received and printed is recorded from line 347 on.
\<close>

definition PBala_main :: "pbala_config \<Rightarrow> run_input \<Rightarrow> master \<Rightarrow> outcome" where
  "PBala_main K R s0 =
     andthen (spawn_nodes R (nodeCores R)
                (s0\<lparr>itid := 0, total_total_time := 0, comm := [], stdio := []\<rparr>)) (\<lambda>s1.
     andthen (first_batch K R (firstBatchSize R) 0 s1) (\<lambda>s2.
     andthen (if maxConcurrentTasks R < nTasks R
              then steady K R (nTasks R - maxConcurrentTasks R)
                     (s2\<lparr>unfinishedTasks := Some [], unfinished_tasks_present := False\<rparr>)
              else Continue (s2\<lparr>unfinishedTasks := Some [], unfinished_tasks_present := False\<rparr>)) (\<lambda>s3.
     andthen (drain K R (firstBatchSize R) s3) (\<lambda>s4.
       Return EXIT_SUCCESS
         (if unfinished_tasks_present s4 then s4 else s4\<lparr>unfinishedTasks := None\<rparr>)))))"

section \<open>Reading the traces\<close>

text \<open>The results a worker sent, in order.\<close>

fun sent_results :: "task_action list \<Rightarrow> msg list" where
  "sent_results [] = []"
| "sent_results (Pvm_send_result m # as) = m # sent_results as"
| "sent_results (a # as) = sent_results as"

text \<open>The number of messages \<^verbatim>\<open>pvm_recv(myparent, MSG_WORK)\<close> delivered to a worker.\<close>

fun works_received :: "task_event list \<Rightarrow> nat" where
  "works_received [] = 0"
| "works_received (Memcheck_defer # es) = works_received es"
| "works_received (Recv_work m fr # es) = Suc (works_received es)"

text \<open>The variables of the worker after it has unpacked a complete work message.\<close>

definition work_vars :: "task_vars \<Rightarrow> int \<Rightarrow> int \<Rightarrow> string \<Rightarrow> string \<Rightarrow> string \<Rightarrow> task_vars" where
  "work_vars v wc tn pf od args =
     v\<lparr>w_work_code := wc, w_taskNumber := tn, w_inp_programFile := pf,
       w_out_dir := od, w_arguments := args\<rparr>"

text \<open>The results the master received, in order.\<close>

fun received :: "comm_event list \<Rightarrow> msg list" where
  "received [] = []"
| "received (Recv m # c) = m # received c"
| "received (Send k t m # c) = received c"

text \<open>The tags of the messages the master sent to the slot \<open>k\<close>, in order.\<close>

fun tags_to :: "nat \<Rightarrow> comm_event list \<Rightarrow> msg_tag list" where
  "tags_to k [] = []"
| "tags_to k (Send j t m # c) = (if j = k then t # tags_to k c else tags_to k c)"
| "tags_to k (Recv m # c) = tags_to k c"

text \<open>
  The master never asks PVM who sent a result: a result belongs to the slot whose
  index it carries as its first item.
\<close>

fun has_slot :: "msg \<Rightarrow> bool" where
  "has_slot (PInt i # b) = True"
| "has_slot m = False"

fun slot_of :: "msg \<Rightarrow> int" where
  "slot_of (PInt i # b) = i"
| "slot_of m = 0"

definition results_from :: "nat \<Rightarrow> comm_event list \<Rightarrow> nat" where
  "results_from k c = length (filter (\<lambda>m. slot_of m = int k) (received c))"

definition works_to :: "nat \<Rightarrow> comm_event list \<Rightarrow> nat" where
  "works_to k c = length (filter (\<lambda>t. t = MSG_WORK) (tags_to k c))"

text \<open>The work message that \<open>send_task\<close> packs for a line of the data file.\<close>

definition work_message :: "pbala_config \<Rightarrow> run_input \<Rightarrow> string \<Rightarrow> msg" where
  "work_message K R buffer =
     (case sscanf_d buffer of
        Scanned n \<Rightarrow>
          [PInt (tag_value K MSG_GREETING), PInt n, PStr (inp_programFile R), PStr (out_dir R),
           PStr (drop (length (show_int n) + 1) (butlast buffer))]
      | _ \<Rightarrow> [])"






text \<open>
  A line of the data file that \<open>send_task\<close> turns into a work message: its task id
  scans, the copy of the arguments starts inside what \<^verbatim>\<open>fgets\<close> wrote, and the script
  writer for the task type, when there is one, succeeds. And a result that names one of
  the slots.
\<close>

definition task_line_ok :: "run_input \<Rightarrow> string \<Rightarrow> bool" where
  "task_line_ok R buffer =
     (case sscanf_d buffer of
        Scanned n \<Rightarrow>
          buffer \<noteq> [] \<and> length (show_int n) + 1 \<le> length buffer
          \<and> (task_type R = 3 \<longrightarrow>
                parifile R n (drop (length (show_int n) + 1) (butlast buffer))
                  (inp_programFile R) (out_dir R) \<noteq> - 1)
          \<and> (task_type R = 4 \<longrightarrow>
                sagefile R n (drop (length (show_int n) + 1) (butlast buffer))
                  (inp_programFile R) (out_dir R) \<noteq> - 1)
          \<and> (task_type R = 5 \<longrightarrow>
                octavefile R n (drop (length (show_int n) + 1) (butlast buffer))
                  (inp_programFile R) (out_dir R) \<noteq> - 1)
      | _ \<Rightarrow> False)"

definition names_slot :: "run_input \<Rightarrow> msg \<Rightarrow> bool" where
  "names_slot R m =
     (has_slot m \<and> 0 \<le> slot_of m \<and> slot_of m < int (maxConcurrentTasks R))"

text \<open>
  A run as the design describes it, for the data file \<open>lines\<close> and the results
  \<open>results\<close> in the order of their arrival, with \<open>N = firstBatchSize\<close>: a greeting
  for every slot; the first \<open>N\<close> lines, the line \<open>i\<close> to the slot \<open>i\<close>; then for each
  line left a result is received and the line goes to the slot of that result; then
  \<open>N\<close> more results are received and each is answered with a stop.
\<close>

definition greetings_sent :: "run_input \<Rightarrow> comm_event list" where
  "greetings_sent R =
     map (\<lambda>k. Send k MSG_GREETING (greeting R (int k))) [0..<maxConcurrentTasks R]"

definition first_batch_sent :: "pbala_config \<Rightarrow> run_input \<Rightarrow> string list \<Rightarrow> comm_event list" where
  "first_batch_sent K R lines =
     map (\<lambda>i. Send i MSG_WORK (work_message K R (lines ! i))) [0..<firstBatchSize R]"

definition steady_exchange :: "pbala_config \<Rightarrow> run_input \<Rightarrow> string list \<Rightarrow> msg list \<Rightarrow> comm_event list" where
  "steady_exchange K R lines results =
     concat (map (\<lambda>k. [Recv (results ! k),
                         Send (nat (slot_of (results ! k))) MSG_WORK
                           (work_message K R (lines ! (firstBatchSize R + k)))])
                 [0..<nTasks R - firstBatchSize R])"

definition drain_exchange :: "pbala_config \<Rightarrow> run_input \<Rightarrow> msg list \<Rightarrow> comm_event list" where
  "drain_exchange K R results =
     concat (map (\<lambda>k. [Recv (results ! (nTasks R - firstBatchSize R + k)),
                         Send (nat (slot_of (results ! (nTasks R - firstBatchSize R + k)))) MSG_STOP
                           [PInt (tag_value K MSG_STOP)]])
                 [0..<firstBatchSize R])"

section \<open>Concrete runs\<close>

text \<open>
  Values for the constants of the missing headers, and a worker that has not been
  greeted yet, for the runs that are evaluated below.
\<close>

definition ex_config :: pbala_config where
  "ex_config =
     \<lparr>tag_value = (\<lambda>t. case t of MSG_GREETING \<Rightarrow> 1 | MSG_WORK \<Rightarrow> 2
                                | MSG_RESULT \<Rightarrow> 3 | MSG_STOP \<Rightarrow> 4),
      ST_MEM_ERR = 9\<rparr>"

definition ex_vars :: task_vars where
  "ex_vars =
     \<lparr>w_me = 0, w_task_type = 0, w_max_task_size = 0, w_work_code = 0, w_taskNumber = 0,
      w_inp_programFile = [], w_out_dir = [], w_arguments = []\<rparr>"

definition ex_arguments :: arguments where
  "ex_arguments =
     \<lparr>max_mem_size = 0, create_err = 0, create_mem = 0, custom_path = 0, program_path = []\<rparr>"

text \<open>A C program on one node of two cores, with a data file of three lines.\<close>

definition ex_input :: run_input where
  "ex_input =
     \<lparr>task_type = 1, inp_programFile = ''prog'', out_dir = ''out'',
      arguments = ex_arguments, nodeCores = [2], nTasks = 3, numt = (\<lambda>k. 1),
      parifile = (\<lambda>n a p d. 0), sagefile = (\<lambda>n a p d. 0), octavefile = (\<lambda>n a p d. 0)\<rparr>"

text \<open>
  A master about to run on that data file, with the three results it will receive:
  task 7 completed in slot 1, task 1 was killed in slot 0, and slot 1 could not fork
  for task 3. The last result of each slot ends with the lifetime of its worker.
\<close>

definition ex_master :: master where
  "ex_master =
     \<lparr>f_data = [''1,a,b'' @ [CHR 0x0A], ''007,c'' @ [CHR 0x0A], ''3,d,e'' @ [CHR 0x0A]],
      inbox = [[PInt 1, PInt 7, PInt 0, PStr ''c'', PDouble 3],
               [PInt 0, PInt 1, PInt 11, PStr ''a,b'', PDouble 2, PDouble 10],
               [PInt 1, PInt 3, PInt 10, PStr ''d,e'', PDouble 7]],
      itid = 0, taskNumber = 0, status = 0, aux_str = [],
      exec_time = 0, total_time = 0, total_total_time = 0, rbuf = [],
      unfinishedTasks = None, unfinished_tasks_present = False, comm = [], stdio = []\<rparr>"

text \<open>The state in which that run ends.\<close>

definition ex_final :: master where
  "ex_final =
     \<lparr>f_data = [], inbox = [], itid = 1, taskNumber = 3, status = 10, aux_str = ''d,e'',
      exec_time = 2, total_time = 7, total_total_time = 17, rbuf = [],
      unfinishedTasks = Some (''1,a,b'' @ [CHR 0x0A] @ ''3,d,e'' @ [CHR 0x0A]),
      unfinished_tasks_present = True,
      comm =
        [Send 0 MSG_GREETING [PInt 0, PInt 1, PLong 0, PInt 0, PInt 0, PInt 0],
         Send 1 MSG_GREETING [PInt 1, PInt 1, PLong 0, PInt 0, PInt 0, PInt 0],
         Send 0 MSG_WORK [PInt 1, PInt 1, PStr ''prog'', PStr ''out'', PStr ''a,b''],
         Send 1 MSG_WORK [PInt 1, PInt 7, PStr ''prog'', PStr ''out'', PStr ''7,c''],
         Recv [PInt 1, PInt 7, PInt 0, PStr ''c'', PDouble 3],
         Send 1 MSG_WORK [PInt 1, PInt 3, PStr ''prog'', PStr ''out'', PStr ''d,e''],
         Recv [PInt 0, PInt 1, PInt 11, PStr ''a,b'', PDouble 2, PDouble 10],
         Send 0 MSG_STOP [PInt 4],
         Recv [PInt 1, PInt 3, PInt 10, PStr ''d,e'', PDouble 7],
         Send 1 MSG_STOP [PInt 4]],
      stdio =
        [CREATED_SLAVE 0, CREATED_SLAVE 1, TASK_SENT 1, TASK_SENT 7, TASK_COMPLETED 7 3,
         TASK_SENT 3, ERROR_stopped_or_killed 1, INFO_shutting_down 0 10,
         ERROR_could_not_fork 3 1, INFO_shutting_down 1 7]\<rparr>"

text \<open>
  The same program and nodes with a data file of one line: the first batch is one
  task, for slot 0, and one result comes back.
\<close>

definition one_task_input :: run_input where
  "one_task_input = ex_input\<lparr>nTasks := 1\<rparr>"

definition one_task_master :: master where
  "one_task_master =
     ex_master\<lparr>f_data := [''1,a,b'' @ [CHR 0x0A]],
                inbox := [[PInt 0, PInt 1, PInt 0, PStr ''a,b'', PDouble 2, PDouble 5]]\<rparr>"

definition one_task_final :: master where
  "one_task_final =
     \<lparr>f_data = [], inbox = [], itid = 0, taskNumber = 1, status = 0, aux_str = ''a,b'',
      exec_time = 2, total_time = 5, total_total_time = 5, rbuf = [],
      unfinishedTasks = None, unfinished_tasks_present = False,
      comm =
        [Send 0 MSG_GREETING [PInt 0, PInt 1, PLong 0, PInt 0, PInt 0, PInt 0],
         Send 1 MSG_GREETING [PInt 1, PInt 1, PLong 0, PInt 0, PInt 0, PInt 0],
         Send 0 MSG_WORK [PInt 1, PInt 1, PStr ''prog'', PStr ''out'', PStr ''a,b''],
         Recv [PInt 0, PInt 1, PInt 0, PStr ''a,b'', PDouble 2, PDouble 5],
         Send 0 MSG_STOP [PInt 4]],
      stdio =
        [CREATED_SLAVE 0, CREATED_SLAVE 1, TASK_SENT 1, TASK_COMPLETED 1 2,
         INFO_shutting_down 0 5]\<rparr>"



text \<open>
  The argument string of a line of the data file as the design describes it: what
  follows the first comma, without the newline that ends the line.
\<close>

definition after_first_comma :: "string \<Rightarrow> string" where
  "after_first_comma line =
     drop 1 (dropWhile (\<lambda>c. c \<noteq> CHR '','')
       (if line \<noteq> [] \<and> last line = CHR 0x0A then butlast line else line))"

text \<open>
  The shape the wire protocol gives every result: the slot index, the task id, the
  status, then the argument string.
\<close>

fun carries_raw_args :: "msg \<Rightarrow> bool" where
  "carries_raw_args (PInt slot # PInt task_id # PInt st # PStr raw_args # rest) = True"
| "carries_raw_args m = False"

section \<open>The daemon is started at most four times\<close>

lemma start_loop_dup_reports:
  "k \<le> 3 \<Longrightarrow> start_loop env k =
     (concat (replicate (dup_reports env k) [Start_pvmd, Pvm_halt, Rm_tmp_pvm]) @
        (if k + dup_reports env k = 4 then [] else [Start_pvmd]),
      if k + dup_reports env k = 4 then Pvmd_return E_PVM_DUP
      else Pvmd_started (env (k + dup_reports env k)))"
proof (induction "3 - k" arbitrary: k)
  case 0
  then have k: "k = 3" by simp
  show ?case unfolding k
    by (subst start_loop.simps) (simp add: dup_reports_def upt_rec split: start_status.splits)
next
  case (Suc n)
  then have k: "k < 3" and n: "n = 3 - Suc k" and le: "Suc k \<le> 3" by simp_all
  have up: "[k..<4] = k # [Suc k..<4]" using k by (simp add: upt_rec)
  show ?case
  proof (cases "env k")
    case PvmDupHost
    then have d: "dup_reports env k = Suc (dup_reports env (Suc k))"
      by (simp add: dup_reports_def up)
    show ?thesis
      using PvmDupHost k Suc.hyps(1) [OF n le]
      by (subst start_loop.simps) (simp add: d)
  next
    case (PvmStatus c)
    then have d: "dup_reports env k = 0"
      by (simp add: dup_reports_def up)
    show ?thesis using PvmStatus k
      by (subst start_loop.simps) (simp add: d)
  qed
qed

text \<open>
  Claim C8. Every start of the daemon that reports a duplicate host is followed by
  \<^verbatim>\<open>pvm_halt\<close> and the removal of the scratch files, and then by another start, up to
  three times: with \<open>d\<close> the number of duplicate-host reports before the first other
  status among the first four starts, the master starts the daemon \<open>d + 1\<close> times and
  goes on when \<open>d \<le> 3\<close>; only when all four starts (the first and three retries) report
  a duplicate host does it return \<^verbatim>\<open>E_PVM_DUP\<close>, after halting and clearing a fourth
  time.
\<close>

theorem start_pvmd_retries_three_times:
  "start_pvmd env =
     (concat (replicate (dup_reports env 0) [Start_pvmd, Pvm_halt, Rm_tmp_pvm]) @
        (if dup_reports env 0 = 4 then [] else [Start_pvmd]),
      if dup_reports env 0 = 4 then Pvmd_return E_PVM_DUP
      else Pvmd_started (env (dup_reports env 0)))
   \<and> dup_reports env 0 \<le> 4
   \<and> (dup_reports env 0 = 4 \<longleftrightarrow> env 0 = PvmDupHost \<and> env 1 = PvmDupHost \<and> env 2 = PvmDupHost \<and> env 3 = PvmDupHost)"
proof -
  have up: "[0..<4] = [0, 1, 2, 3::nat]" by (simp add: upt_rec)
  have a: "dup_reports env 0 \<le> 4"
    unfolding dup_reports_def using length_takeWhile_le [of _ "[0..<4]"] by simp
  have b: "dup_reports env 0 = 4 \<longleftrightarrow>
      env 0 = PvmDupHost \<and> env 1 = PvmDupHost \<and> env 2 = PvmDupHost \<and> env 3 = PvmDupHost"
    by (simp add: dup_reports_def up)
  show ?thesis
    using start_loop_dup_reports [of 0 env] a b by (simp add: start_pvmd_def)
qed

section \<open>What the worker reports\<close>

lemma task_loop_child:
  "wc \<noteq> tag_value K MSG_STOP \<Longrightarrow>
   task_loop K v (Recv_work [PInt wc, PInt tn, PStr pf, PStr od, PStr args]
                    (Fork_child pid infop) # es) =
     (Forked (child_code (work_vars v wc tn pf od args)) #
      Prtusage pid tn od #
      Pvm_send_result [PInt (w_me v), PInt tn, PInt 0] #
      fst (task_loop K (work_vars v wc tn pf od args) es),
      snd (task_loop K (work_vars v wc tn pf od args) es))"
  by (simp add: upk_work_code_def upk_work_def work_vars_def split_def Let_def)

lemma task_loop_fork_failed:
  "wc \<noteq> tag_value K MSG_STOP \<Longrightarrow>
   task_loop K v (Recv_work [PInt wc, PInt tn, PStr pf, PStr od, PStr args] Fork_failed # es) =
     ([Stderr_could_not_spawn tn, Pvm_send_result [PInt (w_me v), PInt tn, PInt 1], Pvm_exit],
      Exit_status 1)"
  by (simp add: upk_work_code_def upk_work_def)

lemma upk_work_me: "w_me (upk_work v b) = w_me v"
  by (simp add: upk_work_def split_def)

lemma upk_work_code_me: "w_me (fst (upk_work_code v b)) = w_me v"
  by (simp add: upk_work_code_def split_def)

lemma upk_greeting_me: "w_me (upk_greeting v (greeting R k)) = k"
  by (simp add: upk_greeting_def greeting_def)

lemma sent_results_shape:
  "m \<in> set (sent_results (fst (task_loop K v es))) \<Longrightarrow>
   \<exists>tn st. m = [PInt (w_me v), PInt tn, PInt st]"
proof (induction K v es rule: task_loop.induct)
  case (1 K v)
  then show ?case by simp
next
  case (2 K v es)
  then show ?case by (simp add: split_def)
next
  case (3 K v m fr es)
  show ?case
  proof (cases "w_work_code (fst (upk_work_code v m)) = tag_value K MSG_STOP")
    case True
    with 3(2) show ?thesis by (simp add: split_def)
  next
    case False
    show ?thesis
    proof (cases fr)
      case Fork_failed
      with False 3(2) show ?thesis
        by (auto simp: split_def Let_def upk_work_me upk_work_code_me)
    next
      case (Fork_child pid infop)
      with False 3(2) 3(1) [OF prod.collapse False refl Fork_child]
      show ?thesis
        by (auto simp: split_def Let_def upk_work_me upk_work_code_me)
    qed
  qed
qed

text \<open>A worker sends at most one result for each message it receives.\<close>

lemma one_result_per_work:
  "length (sent_results (fst (task_loop K v es))) \<le> works_received es"
proof (induction K v es rule: task_loop.induct)
  case (1 K v)
  then show ?case by simp
next
  case (2 K v es)
  then show ?case by (simp add: split_def)
next
  case (3 K v m fr es)
  show ?case
  proof (cases "w_work_code (fst (upk_work_code v m)) = tag_value K MSG_STOP")
    case True
    then show ?thesis by (simp add: split_def)
  next
    case False
    show ?thesis
    proof (cases fr)
      case Fork_failed
      with False show ?thesis by (simp add: split_def Let_def)
    next
      case (Fork_child pid infop)
      with False 3 [OF prod.collapse False refl Fork_child]
      show ?thesis by (simp add: split_def Let_def)
    qed
  qed
qed

text \<open>
  Claim C1, as the code has it. For a task whose fork succeeds, the worker waits for
  the child, writes the resource usage and sends the master the slot index, the task
  id and the status 0, whatever \<^verbatim>\<open>waitid\<close> reported (\<open>infop\<close> does not occur in
  what the worker does); the result holds these three integers and no execution time.
\<close>

theorem task_result_ignores_wait:
  "wc \<noteq> tag_value K MSG_STOP \<Longrightarrow>
   task_loop K v (Recv_work [PInt wc, PInt tn, PStr pf, PStr od, PStr args]
                    (Fork_child pid infop) # es) =
     (Forked (child_code (work_vars v wc tn pf od args)) #
      Prtusage pid tn od #
      Pvm_send_result [PInt (w_me v), PInt tn, PInt 0] #
      fst (task_loop K (work_vars v wc tn pf od args) es),
      snd (task_loop K (work_vars v wc tn pf od args) es))"
  by (rule task_loop_child)

theorem task_result_ignores_wait_witness:
  "(1::int) \<noteq> tag_value ex_config MSG_STOP \<and>
   task_loop ex_config ex_vars
     [Recv_work [PInt 1, PInt 7, PStr ''prog'', PStr ''out'', PStr ''1,2'']
        (Fork_child 100 (CLD_KILLED 9))] =
     ([Forked (child_code (work_vars ex_vars 1 7 ''prog'' ''out'' ''1,2'')),
       Prtusage 100 7 ''out'',
       Pvm_send_result [PInt 0, PInt 7, PInt 0]], Waiting)"
proof -
  have h: "(1::int) \<noteq> tag_value ex_config MSG_STOP" by (simp add: ex_config_def)
  show ?thesis
    using h task_result_ignores_wait [OF h, of ex_vars 7 "''prog''" "''out''" "''1,2''" 100 "CLD_KILLED 9" "[]"]
    by (simp add: ex_vars_def)
qed

text \<open>
  The child of task 7 is killed by signal 9: the worker of slot 3 still reports the
  status 0, which is not \<^verbatim>\<open>ST_TASK_KILLED\<close>, and no execution time.
\<close>

theorem killed_child_reported_with_status_0:
  "sent_results (fst (task_main ex_config ex_vars (greeting ex_input 3)
      [Recv_work [PInt 1, PInt 7, PStr ''prog'', PStr ''out'', PStr ''1,2'']
         (Fork_child 100 (CLD_KILLED 9))])) = [[PInt 3, PInt 7, PInt 0]]
   \<and> (0::int) \<noteq> ST_TASK_KILLED"
  by (simp add: task_main_def upk_greeting_def greeting_def upk_work_def upk_work_code_def
      ex_config_def ex_vars_def ex_input_def ex_arguments_def ST_TASK_KILLED_def)

text \<open>
  Claim C5, as the code has it. When the fork fails the worker prints an error, sends
  the master a result of three integers (the slot index, the task id and a status) and
  exits with status 1, whatever was still to come. The result holds no argument string.
\<close>

theorem fork_failure_reported_then_exit:
  "wc \<noteq> tag_value K MSG_STOP \<Longrightarrow>
   \<exists>st. task_loop K v (Recv_work [PInt wc, PInt tn, PStr pf, PStr od, PStr args] Fork_failed # es) =
     ([Stderr_could_not_spawn tn, Pvm_send_result [PInt (w_me v), PInt tn, PInt st], Pvm_exit],
      Exit_status 1)"
  by (rule exI [of _ 1]) (rule task_loop_fork_failed)

theorem fork_failure_reported_then_exit_witness:
  "(1::int) \<noteq> tag_value ex_config MSG_STOP \<and>
   (\<exists>st. task_loop ex_config ex_vars
      [Recv_work [PInt 1, PInt 8, PStr ''prog'', PStr ''out'', PStr ''3,4''] Fork_failed,
       Recv_work [PInt 1, PInt 9, PStr ''prog'', PStr ''out'', PStr ''5,6''] Fork_failed] =
     ([Stderr_could_not_spawn 8, Pvm_send_result [PInt (w_me ex_vars), PInt 8, PInt st], Pvm_exit],
      Exit_status 1))"
proof -
  have h: "(1::int) \<noteq> tag_value ex_config MSG_STOP" by (simp add: ex_config_def)
  show ?thesis
    using h fork_failure_reported_then_exit [OF h, of ex_vars 8 "''prog''" "''out''" "''3,4''"]
    by blast
qed

text \<open>
  The fork for task 8 fails in the worker of slot 3: the result is three integers with
  the status 1, which is not \<^verbatim>\<open>ST_FORK_ERR\<close>, and the arguments \<open>3,4\<close> are not in it.
\<close>

theorem fork_failure_result_is_three_integers:
  "sent_results (fst (task_main ex_config ex_vars (greeting ex_input 3)
      [Recv_work [PInt 1, PInt 8, PStr ''prog'', PStr ''out'', PStr ''3,4''] Fork_failed]))
     = [[PInt 3, PInt 8, PInt 1]]
   \<and> [PInt 3, PInt 8, PInt 1] \<noteq> [PInt 3, PInt 8, PInt ST_FORK_ERR, PStr ''3,4'']"
  by (simp add: task_main_def upk_greeting_def greeting_def upk_work_def upk_work_code_def
      ex_config_def ex_vars_def ex_input_def ex_arguments_def)

lemma forked_child_code:
  "Forked steps \<in> set (fst (task_loop K v es)) \<Longrightarrow> \<exists>v'. steps = child_code v'"
proof (induction K v es rule: task_loop.induct)
  case (1 K v)
  then show ?case by simp
next
  case (2 K v es)
  then show ?case by (simp add: split_def)
next
  case (3 K v m fr es)
  show ?case
  proof (cases "w_work_code (fst (upk_work_code v m)) = tag_value K MSG_STOP")
    case True
    with 3(2) show ?thesis by (simp add: split_def)
  next
    case False
    show ?thesis
    proof (cases fr)
      case Fork_failed
      with False 3(2) show ?thesis
        by (simp add: split_def Let_def)
    next
      case (Fork_child pid infop)
      with False 3(2) 3(1) [OF prod.collapse False refl Fork_child]
      show ?thesis
        by (auto simp: split_def Let_def)
    qed
  qed
qed

lemma child_code_stderr:
  "take 3 (drop 3 (child_code v)) =
     [Sys_open (w_out_dir v @ ''/'' @ show_int (w_taskNumber v) @ ''_err.txt'')
        [O_WRONLY, O_CREAT] mode_0666,
      Sys_dup2 2, Sys_close]"
  by (simp add: child_code_def)

lemma greeting_rest_unread:
  "task_main K v (greeting (R\<lparr>arguments := (arguments R)\<lparr>create_err := ce, create_mem := cm,
      custom_path := cp, program_path := pp\<rparr>\<rparr>) k) es
   = task_main K v (greeting R k) es"
  by (simp add: task_main_def upk_greeting_def greeting_def)

text \<open>
  Claim C10. The worker reads the slot index, the task type and the maximal task size
  from the greeting and nothing else: whatever the master packs as
  \<^verbatim>\<open>create_err\<close>, \<^verbatim>\<open>create_mem\<close>, \<^verbatim>\<open>custom_path\<close> and program path, the worker
  does the same. Every child it forks opens \<^verbatim>\<open><out_dir>/<task id>_err.txt\<close> with
  \<^verbatim>\<open>O_WRONLY|O_CREAT\<close> and mode 0666 and makes it file descriptor 2, as its fourth
  to sixth steps; for a complete work message the directory and the task id are those
  of the message.
\<close>

theorem stderr_redirect_unconditional:
  "task_main K v (greeting (R\<lparr>arguments := (arguments R)\<lparr>create_err := ce, create_mem := cm,
      custom_path := cp, program_path := pp\<rparr>\<rparr>) k) es
     = task_main K v (greeting R k) es
   \<and> (Forked steps \<in> set (fst (task_main K v (greeting R k) es)) \<longrightarrow>
        (\<exists>d n. take 3 (drop 3 steps) =
           [Sys_open (d @ ''/'' @ show_int n @ ''_err.txt'') [O_WRONLY, O_CREAT] mode_0666,
            Sys_dup2 2, Sys_close]))
   \<and> (wc \<noteq> tag_value K MSG_STOP \<longrightarrow>
        (\<exists>steps' rest.
           fst (task_loop K v (Recv_work [PInt wc, PInt tn, PStr pf, PStr od, PStr args]
                                 (Fork_child pid infop) # es')) = Forked steps' # rest
           \<and> take 3 (drop 3 steps') =
               [Sys_open (od @ ''/'' @ show_int tn @ ''_err.txt'') [O_WRONLY, O_CREAT] mode_0666,
                Sys_dup2 2, Sys_close]))
   \<and> mode_0666 = 438"
proof (intro conjI impI)
  show "task_main K v (greeting (R\<lparr>arguments := (arguments R)\<lparr>create_err := ce, create_mem := cm,
      custom_path := cp, program_path := pp\<rparr>\<rparr>) k) es = task_main K v (greeting R k) es"
    by (rule greeting_rest_unread)
next
  assume "Forked steps \<in> set (fst (task_main K v (greeting R k) es))"
  then obtain v' where "steps = child_code v'"
    unfolding task_main_def using forked_child_code by blast
  then show "\<exists>d n. take 3 (drop 3 steps) =
           [Sys_open (d @ ''/'' @ show_int n @ ''_err.txt'') [O_WRONLY, O_CREAT] mode_0666,
            Sys_dup2 2, Sys_close]"
    using child_code_stderr [of v'] by blast
next
  assume wc: "wc \<noteq> tag_value K MSG_STOP"
  have "take 3 (drop 3 (child_code (work_vars v wc tn pf od args))) =
      [Sys_open (od @ ''/'' @ show_int tn @ ''_err.txt'') [O_WRONLY, O_CREAT] mode_0666,
       Sys_dup2 2, Sys_close]"
    using child_code_stderr [of "work_vars v wc tn pf od args"] by (simp add: work_vars_def)
  then show "\<exists>steps' rest.
           fst (task_loop K v (Recv_work [PInt wc, PInt tn, PStr pf, PStr od, PStr args]
                                 (Fork_child pid infop) # es')) = Forked steps' # rest
           \<and> take 3 (drop 3 steps') =
               [Sys_open (od @ ''/'' @ show_int tn @ ''_err.txt'') [O_WRONLY, O_CREAT] mode_0666,
                Sys_dup2 2, Sys_close]"
    by (simp only: task_loop_child [OF wc] fst_conv) blast
next
  show "mode_0666 = 438" by (simp add: mode_0666_def)
qed

theorem stderr_redirect_unconditional_witness:
  "task_main ex_config ex_vars
     (greeting (ex_input\<lparr>arguments := (arguments ex_input)\<lparr>create_err := 1, create_mem := 1,
        custom_path := 1, program_path := ''/opt/maple''\<rparr>\<rparr>) 3)
     [Recv_work [PInt 1, PInt 7, PStr ''prog'', PStr ''out'', PStr ''1,2'']
        (Fork_child 100 (CLD_EXITED 0))]
   = task_main ex_config ex_vars (greeting ex_input 3)
     [Recv_work [PInt 1, PInt 7, PStr ''prog'', PStr ''out'', PStr ''1,2'']
        (Fork_child 100 (CLD_EXITED 0))]
   \<and> (\<exists>d n. take 3 (drop 3
          [Sys_open ''out/7_out.txt'' [O_WRONLY, O_CREAT] mode_0666, Sys_dup2 1, Sys_close,
           Sys_open ''out/7_err.txt'' [O_WRONLY, O_CREAT] mode_0666, Sys_dup2 2, Sys_close,
           Execvp_c]) =
        [Sys_open (d @ ''/'' @ show_int n @ ''_err.txt'') [O_WRONLY, O_CREAT] mode_0666,
         Sys_dup2 2, Sys_close])
   \<and> (\<exists>steps' rest.
         fst (task_loop ex_config ex_vars
                [Recv_work [PInt 1, PInt 7, PStr ''prog'', PStr ''out'', PStr ''1,2'']
                   (Fork_child 100 (CLD_EXITED 0))]) = Forked steps' # rest
         \<and> take 3 (drop 3 steps') =
             [Sys_open (''out'' @ ''/'' @ show_int 7 @ ''_err.txt'') [O_WRONLY, O_CREAT] mode_0666,
              Sys_dup2 2, Sys_close])"
proof -
  let ?es = "[Recv_work [PInt 1, PInt 7, PStr ''prog'', PStr ''out'', PStr ''1,2'']
        (Fork_child 100 (CLD_EXITED 0))]"
  let ?steps = "[Sys_open ''out/7_out.txt'' [O_WRONLY, O_CREAT] mode_0666, Sys_dup2 1, Sys_close,
           Sys_open ''out/7_err.txt'' [O_WRONLY, O_CREAT] mode_0666, Sys_dup2 2, Sys_close,
           Execvp_c]"
  have wc: "(1::int) \<noteq> tag_value ex_config MSG_STOP" by (simp add: ex_config_def)
  have mem: "Forked ?steps \<in> set (fst (task_main ex_config ex_vars (greeting ex_input 3) ?es))"
    by (simp add: task_main_def upk_greeting_def greeting_def upk_work_def upk_work_code_def
        ex_config_def ex_vars_def ex_input_def ex_arguments_def child_code_def
        show_int_def show_nat.simps digit_char_def)
  show ?thesis
    using stderr_redirect_unconditional [where K = ex_config and v = ex_vars and R = ex_input
        and ce = 1 and cm = 1 and cp = 1 and pp = "''/opt/maple''" and k = 3 and es = ?es
        and steps = ?steps and wc = 1 and tn = 7 and pf = "''prog''" and od = "''out''"
        and args = "''1,2''" and pid = 100 and infop = "CLD_EXITED 0" and es' = "[]"] wc mem
    by blast
qed

text \<open>
  Claim C4, as the code has it. Every result a worker sends holds three integers and
  nothing more: the slot index it was greeted with, a task id and a status; there is
  no argument string, no execution time and no lifetime in it. The master, in its last
  loop, reads from each result the slot index, the task id, the status and an argument
  string, then an execution time unless the status is \<^verbatim>\<open>ST_MEM_ERR\<close> or
  \<^verbatim>\<open>ST_FORK_ERR\<close>, and then a lifetime that it adds to \<^verbatim>\<open>total_total_time\<close>.
\<close>

theorem result_is_three_integers_master_adds_lifetime:
  "(m \<in> set (sent_results (fst (task_main K v (greeting R k) es))) \<longrightarrow>
      (\<exists>tn st. m = [PInt k, PInt tn, PInt st]))
   \<and> (inbox s = (PInt i # PInt n # PInt st # PStr a # PDouble e # PDouble l # rest) # ms
        \<and> st \<noteq> ST_MEM_ERR K \<and> st \<noteq> ST_FORK_ERR
        \<and> 0 \<le> i \<and> i < int (maxConcurrentTasks R) \<longrightarrow>
      (\<exists>s'. drain_step K R s = Continue s'
          \<and> total_total_time s' = total_total_time s + l \<and> exec_time s' = e))
   \<and> (inbox s = (PInt i # PInt n # PInt st # PStr a # PDouble l # rest) # ms
        \<and> (st = ST_MEM_ERR K \<or> st = ST_FORK_ERR)
        \<and> 0 \<le> i \<and> i < int (maxConcurrentTasks R) \<longrightarrow>
      (\<exists>s'. drain_step K R s = Continue s'
          \<and> total_total_time s' = total_total_time s + l))"
proof (intro conjI impI)
  assume "m \<in> set (sent_results (fst (task_main K v (greeting R k) es)))"
  then show "\<exists>tn st. m = [PInt k, PInt tn, PInt st]"
    unfolding task_main_def using sent_results_shape [of m K "upk_greeting v (greeting R k)" es]
    by (simp add: upk_greeting_me)
next
  assume "inbox s = (PInt i # PInt n # PInt st # PStr a # PDouble e # PDouble l # rest) # ms
        \<and> st \<noteq> ST_MEM_ERR K \<and> st \<noteq> ST_FORK_ERR
        \<and> 0 \<le> i \<and> i < int (maxConcurrentTasks R)"
  then show "\<exists>s'. drain_step K R s = Continue s'
          \<and> total_total_time s' = total_total_time s + l \<and> exec_time s' = e"
    by (simp add: drain_step_def recv_result_def split_def Let_def andthen_def
        append_unfinished_def)
next
  assume "inbox s = (PInt i # PInt n # PInt st # PStr a # PDouble l # rest) # ms
        \<and> (st = ST_MEM_ERR K \<or> st = ST_FORK_ERR)
        \<and> 0 \<le> i \<and> i < int (maxConcurrentTasks R)"
  then show "\<exists>s'. drain_step K R s = Continue s'
          \<and> total_total_time s' = total_total_time s + l"
    by (auto simp add: drain_step_def recv_result_def split_def Let_def andthen_def
        append_unfinished_def)
qed

theorem result_is_three_integers_master_adds_lifetime_witness:
  "(\<exists>tn st. [PInt 3, PInt 7, PInt 0] = [PInt 3, PInt tn, PInt st])
   \<and> (\<exists>s'. drain_step ex_config ex_input
           (ex_master\<lparr>inbox := [[PInt 1, PInt 7, PInt 0, PStr ''c'', PDouble 3, PDouble 20]]\<rparr>)
           = Continue s'
         \<and> total_total_time s' = 20 \<and> exec_time s' = 3)
   \<and> (\<exists>s'. drain_step ex_config ex_input
           (ex_master\<lparr>inbox := [[PInt 1, PInt 3, PInt 10, PStr ''d,e'', PDouble 7]]\<rparr>)
           = Continue s'
         \<and> total_total_time s' = 7)"
proof -
  let ?es = "[Recv_work [PInt 1, PInt 7, PStr ''prog'', PStr ''out'', PStr ''1,2'']
        (Fork_child 100 (CLD_EXITED 0))]"
  let ?s1 = "ex_master\<lparr>inbox := [[PInt 1, PInt 7, PInt 0, PStr ''c'', PDouble 3, PDouble 20]]\<rparr>"
  let ?s2 = "ex_master\<lparr>inbox := [[PInt 1, PInt 3, PInt 10, PStr ''d,e'', PDouble 7]]\<rparr>"
  have mem: "[PInt 3, PInt 7, PInt 0]
      \<in> set (sent_results (fst (task_main ex_config ex_vars (greeting ex_input 3) ?es)))"
    by (simp add: task_main_def upk_greeting_def greeting_def upk_work_def upk_work_code_def
        ex_config_def ex_vars_def ex_input_def ex_arguments_def)
  have h1: "inbox ?s1 = (PInt 1 # PInt 7 # PInt 0 # PStr ''c'' # PDouble 3 # PDouble 20 # []) # []
      \<and> 0 \<noteq> ST_MEM_ERR ex_config \<and> 0 \<noteq> ST_FORK_ERR
      \<and> (0::int) \<le> 1 \<and> 1 < int (maxConcurrentTasks ex_input)"
    by (simp add: ex_config_def ex_input_def ST_FORK_ERR_def maxConcurrentTasks_def)
  have h2: "inbox ?s2 = (PInt 1 # PInt 3 # PInt 10 # PStr ''d,e'' # PDouble 7 # []) # []
      \<and> (10 = ST_MEM_ERR ex_config \<or> 10 = ST_FORK_ERR)
      \<and> (0::int) \<le> 1 \<and> 1 < int (maxConcurrentTasks ex_input)"
    by (simp add: ex_config_def ex_input_def ST_FORK_ERR_def maxConcurrentTasks_def)
  have t1: "total_total_time ?s1 = 0" and t2: "total_total_time ?s2 = 0"
    by (simp_all add: ex_master_def)
  have a: "\<exists>tn st. [PInt 3, PInt 7, PInt 0] = [PInt 3, PInt tn, PInt st]"
    using result_is_three_integers_master_adds_lifetime
         [where m = "[PInt 3, PInt 7, PInt 0]" and K = ex_config and v = ex_vars
            and R = ex_input and k = 3 and es = ?es,
          THEN conjunct1, rule_format, OF mem] .
  have b: "\<exists>s'. drain_step ex_config ex_input ?s1 = Continue s'
            \<and> total_total_time s' = 20 \<and> exec_time s' = 3"
    using result_is_three_integers_master_adds_lifetime
         [where K = ex_config and R = ex_input and s = ?s1 and i = 1 and n = 7
            and st = 0 and a = "''c''" and e = 3 and l = 20 and rest = "[]" and ms = "[]",
          THEN conjunct2, THEN conjunct1, rule_format, OF h1]
    by (simp add: t1)
  have c: "\<exists>s'. drain_step ex_config ex_input ?s2 = Continue s' \<and> total_total_time s' = 7"
    using result_is_three_integers_master_adds_lifetime
         [where K = ex_config and R = ex_input and s = ?s2 and i = 1 and n = 3
            and st = 10 and a = "''d,e''" and l = 7 and rest = "[]" and ms = "[]",
          THEN conjunct2, THEN conjunct2, rule_format, OF h2]
    by (simp add: t2)
  from a b c show ?thesis by blast
qed

text \<open>
  The worker of slot 3 runs task 7, whose child exits normally, and is then told to
  stop: the only result it sends before it exits has no argument string in it (and so
  no execution time and no lifetime after one).
\<close>

theorem last_result_has_no_arguments:
  "task_main ex_config ex_vars (greeting ex_input 3)
     [Recv_work [PInt 1, PInt 7, PStr ''prog'', PStr ''out'', PStr ''1,2'']
        (Fork_child 100 (CLD_EXITED 0)),
      Recv_work [PInt 4] Fork_failed]
    = ([Forked (child_code (work_vars (ex_vars\<lparr>w_me := 3, w_task_type := 1\<rparr>) 1 7 ''prog'' ''out'' ''1,2'')),
        Prtusage 100 7 ''out'',
        Pvm_send_result [PInt 3, PInt 7, PInt 0],
        Pvm_exit], Exit_status 0)
   \<and> \<not> carries_raw_args [PInt 3, PInt 7, PInt 0]"
  by (simp add: task_main_def upk_greeting_def greeting_def upk_work_def upk_work_code_def
      ex_config_def ex_vars_def ex_input_def ex_arguments_def work_vars_def)

section \<open>How the master classifies a result\<close>

lemma recv_result_other_status:
  assumes "inbox s = (PInt i # PInt n # PInt st # rest) # ms"
    and "st \<noteq> ST_MEM_ERR K" and "st \<noteq> ST_FORK_ERR" and "st \<noteq> ST_TASK_KILLED"
  shows "\<exists>s'. recv_result K s = Continue s'
      \<and> exec_time s' = fst (pvm_upkdouble (exec_time s) (snd (pvm_upkstr (aux_str s) rest)))
      \<and> stdio s' = stdio s @ [TASK_COMPLETED n (exec_time s')]
      \<and> unfinishedTasks s' = unfinishedTasks s
      \<and> unfinished_tasks_present s' = unfinished_tasks_present s"
  using assms by (simp add: recv_result_def split_def Let_def)

text \<open>
  Claim C9. A received result whose status is none of \<^verbatim>\<open>ST_MEM_ERR\<close>,
  \<^verbatim>\<open>ST_FORK_ERR\<close> and \<^verbatim>\<open>ST_TASK_KILLED\<close> makes the master call
  \<^verbatim>\<open>pvm_upkdouble\<close> for \<^verbatim>\<open>exec_time\<close> on what follows the argument string, print
  the task as completed with that time, and leave unfinished\_tasks.txt and its flag as
  they were. The result the worker sends when its fork fails has the status 1: with
  \<^verbatim>\<open>ST_MEM_ERR\<close> other than 1 it is printed as completed too (with the execution time
  the master already held, since the result has none).
\<close>

theorem other_status_printed_as_completed:
  "(inbox s = (PInt i # PInt n # PInt st # rest) # ms
      \<and> st \<noteq> ST_MEM_ERR K \<and> st \<noteq> ST_FORK_ERR \<and> st \<noteq> ST_TASK_KILLED \<longrightarrow>
    (\<exists>s'. recv_result K s = Continue s'
      \<and> exec_time s' = fst (pvm_upkdouble (exec_time s) (snd (pvm_upkstr (aux_str s) rest)))
      \<and> stdio s' = stdio s @ [TASK_COMPLETED n (exec_time s')]
      \<and> unfinishedTasks s' = unfinishedTasks s
      \<and> unfinished_tasks_present s' = unfinished_tasks_present s))
   \<and> (wc \<noteq> tag_value K MSG_STOP \<and> ST_MEM_ERR K \<noteq> 1
      \<and> inbox s' = sent_results (fst (task_loop K v
            (Recv_work [PInt wc, PInt tn, PStr pf, PStr od, PStr args] Fork_failed # es))) @ ms'
      \<longrightarrow>
    (\<exists>s''. recv_result K s' = Continue s'' \<and> status s'' = 1
      \<and> stdio s'' = stdio s' @ [TASK_COMPLETED tn (exec_time s')]
      \<and> unfinishedTasks s'' = unfinishedTasks s'
      \<and> unfinished_tasks_present s'' = unfinished_tasks_present s'))"
proof (intro conjI impI)
  assume "inbox s = (PInt i # PInt n # PInt st # rest) # ms
      \<and> st \<noteq> ST_MEM_ERR K \<and> st \<noteq> ST_FORK_ERR \<and> st \<noteq> ST_TASK_KILLED"
  then show "\<exists>s'. recv_result K s = Continue s'
      \<and> exec_time s' = fst (pvm_upkdouble (exec_time s) (snd (pvm_upkstr (aux_str s) rest)))
      \<and> stdio s' = stdio s @ [TASK_COMPLETED n (exec_time s')]
      \<and> unfinishedTasks s' = unfinishedTasks s
      \<and> unfinished_tasks_present s' = unfinished_tasks_present s"
    using recv_result_other_status by blast
next
  assume a: "wc \<noteq> tag_value K MSG_STOP \<and> ST_MEM_ERR K \<noteq> 1
      \<and> inbox s' = sent_results (fst (task_loop K v
            (Recv_work [PInt wc, PInt tn, PStr pf, PStr od, PStr args] Fork_failed # es))) @ ms'"
  then have wc: "wc \<noteq> tag_value K MSG_STOP" and mem: "ST_MEM_ERR K \<noteq> 1" by simp_all
  from a have "inbox s' = [PInt (w_me v), PInt tn, PInt 1] # ms'"
    by (simp only: task_loop_fork_failed [OF wc]) simp
  with mem show "\<exists>s''. recv_result K s' = Continue s'' \<and> status s'' = 1
      \<and> stdio s'' = stdio s' @ [TASK_COMPLETED tn (exec_time s')]
      \<and> unfinishedTasks s'' = unfinishedTasks s'
      \<and> unfinished_tasks_present s'' = unfinished_tasks_present s'"
    by (simp add: recv_result_def split_def Let_def ST_FORK_ERR_def ST_TASK_KILLED_def)
qed

theorem other_status_printed_as_completed_witness:
  "(\<exists>s'. recv_result ex_config ex_master = Continue s'
      \<and> exec_time s' = 3
      \<and> stdio s' = [TASK_COMPLETED 7 3]
      \<and> unfinishedTasks s' = None
      \<and> unfinished_tasks_present s' = False)
   \<and> (\<exists>s''. recv_result ex_config (ex_master\<lparr>inbox := [[PInt 0, PInt 8, PInt 1]]\<rparr>) = Continue s''
      \<and> status s'' = 1
      \<and> stdio s'' = [TASK_COMPLETED 8 0]
      \<and> unfinishedTasks s'' = None
      \<and> unfinished_tasks_present s'' = False)"
proof -
  let ?s = "ex_master\<lparr>inbox := [[PInt 0, PInt 8, PInt 1]]\<rparr>"
  have h1: "inbox ex_master = (PInt 1 # PInt 7 # PInt 0 # [PStr ''c'', PDouble 3]) #
        [[PInt 0, PInt 1, PInt 11, PStr ''a,b'', PDouble 2, PDouble 10],
         [PInt 1, PInt 3, PInt 10, PStr ''d,e'', PDouble 7]]
      \<and> 0 \<noteq> ST_MEM_ERR ex_config \<and> 0 \<noteq> ST_FORK_ERR \<and> 0 \<noteq> ST_TASK_KILLED"
    by (simp add: ex_master_def ex_config_def ST_FORK_ERR_def ST_TASK_KILLED_def)
  have h2: "(1::int) \<noteq> tag_value ex_config MSG_STOP \<and> ST_MEM_ERR ex_config \<noteq> 1
      \<and> inbox ?s = sent_results (fst (task_loop ex_config ex_vars
            (Recv_work [PInt 1, PInt 8, PStr ''prog'', PStr ''out'', PStr ''3,4''] Fork_failed # []))) @ []"
    by (simp add: ex_config_def ex_vars_def upk_work_code_def upk_work_def)
  have e: "exec_time ex_master = 0" "aux_str ex_master = []" "stdio ex_master = []"
    "unfinishedTasks ex_master = None" "unfinished_tasks_present ex_master = False"
    by (simp_all add: ex_master_def)
  have a: "\<exists>s'. recv_result ex_config ex_master = Continue s'
      \<and> exec_time s' = 3 \<and> stdio s' = [TASK_COMPLETED 7 3]
      \<and> unfinishedTasks s' = None \<and> unfinished_tasks_present s' = False"
    using other_status_printed_as_completed
         [where s = ex_master and i = 1 and n = 7 and st = 0 and K = ex_config
            and rest = "[PStr ''c'', PDouble 3]"
            and ms = "[[PInt 0, PInt 1, PInt 11, PStr ''a,b'', PDouble 2, PDouble 10],
                       [PInt 1, PInt 3, PInt 10, PStr ''d,e'', PDouble 7]]",
          THEN conjunct1, rule_format, OF h1]
    by (auto simp: e)
  have b: "\<exists>s''. recv_result ex_config ?s = Continue s'' \<and> status s'' = 1
      \<and> stdio s'' = [TASK_COMPLETED 8 0]
      \<and> unfinishedTasks s'' = None \<and> unfinished_tasks_present s'' = False"
    using other_status_printed_as_completed
         [where K = ex_config and wc = 1 and s' = ?s and v = ex_vars and tn = 8
            and pf = "''prog''" and od = "''out''" and args = "''3,4''" and es = "[]" and ms' = "[]",
          THEN conjunct2, rule_format, OF h2]
    by (auto simp: e)
  from a b show ?thesis by blast
qed

section \<open>One step of the master\<close>

lemma andthen_Continue:
  "andthen r f = Continue s' \<Longrightarrow> \<exists>s1. r = Continue s1 \<and> f s1 = Continue s'"
  by (cases r) (simp_all add: andthen_def)

lemma andthen_Return:
  "andthen r f = Return c s' \<Longrightarrow> r = Return c s' \<or> (\<exists>s1. r = Continue s1 \<and> f s1 = Return c s')"
  by (cases r) (simp_all add: andthen_def)

lemma received_append: "received (c @ d) = received c @ received d"
  by (induction c rule: received.induct) simp_all

lemma tags_to_append: "tags_to k (c @ d) = tags_to k c @ tags_to k d"
  by (induction k c rule: tags_to.induct) simp_all

lemma send_task_effect:
  assumes "send_task K R slot buffer s = Continue s'"
  shows "comm s' = comm s @ [Send (nat slot) MSG_WORK (work_message K R buffer)]"
    and "f_data s' = f_data s" and "inbox s' = inbox s"
    and "unfinishedTasks s' = unfinishedTasks s"
    and "unfinished_tasks_present s' = unfinished_tasks_present s"
    and "total_total_time s' = total_total_time s"
    and "0 \<le> slot" and "slot < int (maxConcurrentTasks R)"
  using assms
  by (auto simp: send_task_def work_message_def Let_def split: scan.splits if_splits)

lemma next_task_effect:
  assumes "next_task K R slot s = Continue s'" and "f_data s = b # rest"
  shows "comm s' = comm s @ [Send (nat slot) MSG_WORK (work_message K R b)]"
    and "f_data s' = rest" and "inbox s' = inbox s"
    and "unfinishedTasks s' = unfinishedTasks s"
    and "unfinished_tasks_present s' = unfinished_tasks_present s"
    and "total_total_time s' = total_total_time s"
    and "0 \<le> slot" and "slot < int (maxConcurrentTasks R)"
  using assms send_task_effect [of K R slot b "s\<lparr>f_data := rest\<rparr>" s']
  by (simp_all add: next_task_def)


lemma recv_result_effect:
  assumes "recv_result K s = Continue s'"
  shows "\<exists>m. inbox s = m # inbox s' \<and> comm s' = comm s @ [Recv m] \<and> f_data s' = f_data s
      \<and> itid s' = fst (pvm_upkint (itid s) m)
      \<and> total_total_time s' = total_total_time s"
  using assms
  by (cases "inbox s") (auto simp: recv_result_def Let_def split_def append_unfinished_def split: if_splits)



section \<open>The loops of the master\<close>

lemma spawn_cores_effect:
  "spawn_cores R j s = Continue s' \<Longrightarrow> 0 \<le> itid s \<Longrightarrow>
   comm s' = comm s @ map (\<lambda>k. Send k MSG_GREETING (greeting R (int k))) [nat (itid s)..<nat (itid s) + j]
   \<and> itid s' = itid s + int j \<and> f_data s' = f_data s \<and> inbox s' = inbox s"
proof (induction j arbitrary: s)
  case 0
  then show ?case by simp
next
  case (Suc j)
  from Suc.prems(1) obtain s1 where s1: "spawn_slot R s = Continue s1"
    and r: "spawn_cores R j s1 = Continue s'"
    by (auto dest: andthen_Continue)
  from s1 Suc.prems(2) have e: "comm s1 = comm s @ [Send (nat (itid s)) MSG_GREETING (greeting R (itid s))]"
    "itid s1 = itid s + 1" "f_data s1 = f_data s" "inbox s1 = inbox s"
    by (auto simp: spawn_slot_def split: if_splits)
  from e(2) Suc.prems(2) have n: "nat (itid s1) = Suc (nat (itid s))" "0 \<le> itid s1" by simp_all
  have u: "[nat (itid s)..<Suc (nat (itid s) + j)]
      = nat (itid s) # [Suc (nat (itid s))..<Suc (nat (itid s) + j)]"
    by (rule upt_conv_Cons) simp
  from Suc.IH [OF r n(2)] e n Suc.prems(2)
  show ?case by (simp add: u del: upt_Suc)
qed

lemma spawn_nodes_effect:
  "spawn_nodes R cs s = Continue s' \<Longrightarrow> 0 \<le> itid s \<Longrightarrow>
   comm s' = comm s @ map (\<lambda>k. Send k MSG_GREETING (greeting R (int k))) [nat (itid s)..<nat (itid s) + sum_list cs]
   \<and> itid s' = itid s + int (sum_list cs) \<and> f_data s' = f_data s \<and> inbox s' = inbox s"
proof (induction cs arbitrary: s)
  case Nil
  then show ?case by simp
next
  case (Cons c cs)
  from Cons.prems(1) obtain s1 where s1: "spawn_cores R c s = Continue s1"
    and r: "spawn_nodes R cs s1 = Continue s'"
    by (auto dest: andthen_Continue)
  note e = spawn_cores_effect [OF s1 Cons.prems(2)]
  from e Cons.prems(2) have n: "nat (itid s1) = nat (itid s) + c" "0 \<le> itid s1" by simp_all
  have u: "[nat (itid s)..<nat (itid s) + (c + sum_list cs)]
      = [nat (itid s)..<nat (itid s) + c] @ [nat (itid s) + c..<nat (itid s) + c + sum_list cs]"
    using upt_add_eq_append [of "nat (itid s)" "nat (itid s) + c" "sum_list cs"] by (simp add: add.assoc)
  from Cons.IH [OF r n(2)] e n
  show ?case by (simp add: u)
qed

lemma first_batch_effect:
  "first_batch K R n i s = Continue s' \<Longrightarrow> n \<le> length (f_data s) \<Longrightarrow>
   comm s' = comm s @ map (\<lambda>j. Send (i + j) MSG_WORK (work_message K R (f_data s ! j))) [0..<n]
   \<and> f_data s' = drop n (f_data s) \<and> inbox s' = inbox s"
proof (induction n arbitrary: i s)
  case 0
  then show ?case by simp
next
  case (Suc n)
  from Suc.prems(1) obtain s1 where s1: "next_task K R (int i) s = Continue s1"
    and r: "first_batch K R n (Suc i) s1 = Continue s'"
    by (auto dest: andthen_Continue)
  from Suc.prems(2) obtain b rest where f: "f_data s = b # rest" by (cases "f_data s") simp_all
  note e = next_task_effect [OF s1 f]
  from Suc.prems(2) f e have l: "n \<le> length (f_data s1)" by simp
  from Suc.IH [OF r l] e f
  show ?case by (simp add: map_upt_Suc del: upt_Suc)
qed


lemma steady_effect:
  "steady K R n s = Continue s' \<Longrightarrow> n \<le> length (f_data s) \<Longrightarrow>
   \<forall>m\<in>set (take n (inbox s)). has_slot m \<Longrightarrow>
   comm s' = comm s @ concat (map (\<lambda>k. [Recv (inbox s ! k),
       Send (nat (slot_of (inbox s ! k))) MSG_WORK (work_message K R (f_data s ! k))]) [0..<n])
   \<and> f_data s' = drop n (f_data s) \<and> inbox s' = drop n (inbox s) \<and> n \<le> length (inbox s)
   \<and> (\<forall>k<n. 0 \<le> slot_of (inbox s ! k) \<and> slot_of (inbox s ! k) < int (maxConcurrentTasks R))"
proof (induction n arbitrary: s)
  case 0
  then show ?case by simp
next
  case (Suc n)
  from Suc.prems(1) obtain s1 s2 where s1: "recv_result K s = Continue s1"
    and s2: "next_task K R (itid s1) s1 = Continue s2"
    and r: "steady K R n s2 = Continue s'"
    by (auto simp: steady_step_def dest!: andthen_Continue)
  from recv_result_effect [OF s1] obtain m where m: "inbox s = m # inbox s1"
    "comm s1 = comm s @ [Recv m]" "f_data s1 = f_data s" "itid s1 = fst (pvm_upkint (itid s) m)"
    by blast
  from Suc.prems(3) m(1) have hs: "has_slot m" by simp
  then have it: "itid s1 = slot_of m" using m(4) by (cases m rule: has_slot.cases) simp_all
  from Suc.prems(2) obtain b rest where "f_data s = b # rest" by (cases "f_data s") simp_all
  with m(3) have f: "f_data s1 = b # rest" by simp
  note e = next_task_effect [OF s2 f]
  have l: "n \<le> length (f_data s2)" using Suc.prems(2) e(2) f m(3) by simp
  have w: "\<forall>m\<in>set (take n (inbox s2)). has_slot m" using Suc.prems(3) e(3) m(1) by simp
  have fd: "f_data s = b # f_data s2" using f m(3) e(2) by simp
  have ib: "inbox s = m # inbox s2" using m(1) e(3) by simp
  have c2: "comm s2 = comm s @ [Recv m, Send (nat (slot_of m)) MSG_WORK (work_message K R b)]"
    using e(1) m(2) it by simp
  have rg: "0 \<le> slot_of m \<and> slot_of m < int (maxConcurrentTasks R)"
    using e(7,8) it by simp
  from Suc.IH [OF r l w] c2 rg
  show ?case unfolding fd ib
    by (simp add: map_upt_Suc All_less_Suc2 del: upt_Suc)
qed

lemma drain_step_effect:
  assumes "drain_step K R s = Continue s'"
  shows "\<exists>m. inbox s = m # inbox s'
      \<and> comm s' = comm s @ [Recv m, Send (nat (fst (pvm_upkint (itid s) m))) MSG_STOP
                                  [PInt (tag_value K MSG_STOP)]]
      \<and> f_data s' = f_data s
      \<and> 0 \<le> fst (pvm_upkint (itid s) m)
      \<and> fst (pvm_upkint (itid s) m) < int (maxConcurrentTasks R)"
proof -
  from assms obtain s1 where s1: "recv_result K s = Continue s1"
    and r: "(case pvm_upkdouble (total_time s1) (rbuf s1) of (t, b) \<Rightarrow>
         if itid s1 < 0 \<or> int (maxConcurrentTasks R) \<le> itid s1 then Undefined
         else Continue
           (s1\<lparr>total_time := t, rbuf := b,
                comm := comm s1 @ [Send (nat (itid s1)) MSG_STOP [PInt (tag_value K MSG_STOP)]],
                stdio := stdio s1 @ [INFO_shutting_down (itid s1) t],
                total_total_time := total_total_time s1 + t\<rparr>)) = Continue s'"
    unfolding drain_step_def by (auto dest!: andthen_Continue)
  from recv_result_effect [OF s1] obtain m where m: "inbox s = m # inbox s1"
    "comm s1 = comm s @ [Recv m]" "f_data s1 = f_data s" "itid s1 = fst (pvm_upkint (itid s) m)"
    by blast
  from r m show ?thesis
    by (auto simp: split_def split: if_splits)
qed

lemma drain_effect:
  "drain K R n s = Continue s' \<Longrightarrow>
   \<forall>m\<in>set (take n (inbox s)). has_slot m \<Longrightarrow>
   comm s' = comm s @ concat (map (\<lambda>k. [Recv (inbox s ! k),
       Send (nat (slot_of (inbox s ! k))) MSG_STOP [PInt (tag_value K MSG_STOP)]]) [0..<n])
   \<and> f_data s' = f_data s \<and> inbox s' = drop n (inbox s) \<and> n \<le> length (inbox s)
   \<and> (\<forall>k<n. 0 \<le> slot_of (inbox s ! k) \<and> slot_of (inbox s ! k) < int (maxConcurrentTasks R))"
proof (induction n arbitrary: s)
  case 0
  then show ?case by simp
next
  case (Suc n)
  from Suc.prems(1) obtain s1 where s1: "drain_step K R s = Continue s1"
    and r: "drain K R n s1 = Continue s'"
    by (auto dest!: andthen_Continue)
  from drain_step_effect [OF s1] obtain m where m: "inbox s = m # inbox s1"
    "comm s1 = comm s @ [Recv m, Send (nat (fst (pvm_upkint (itid s) m))) MSG_STOP
                                  [PInt (tag_value K MSG_STOP)]]"
    "f_data s1 = f_data s" "0 \<le> fst (pvm_upkint (itid s) m)"
    "fst (pvm_upkint (itid s) m) < int (maxConcurrentTasks R)"
    by blast
  from Suc.prems(2) m(1) have hs: "has_slot m" by simp
  then have it: "fst (pvm_upkint (itid s) m) = slot_of m" by (cases m rule: has_slot.cases) simp_all
  have w: "\<forall>m\<in>set (take n (inbox s1)). has_slot m" using Suc.prems(2) m(1) by simp
  have c1: "comm s1 = comm s @ [Recv m, Send (nat (slot_of m)) MSG_STOP [PInt (tag_value K MSG_STOP)]]"
    using m(2) it by simp
  have rg: "0 \<le> slot_of m \<and> slot_of m < int (maxConcurrentTasks R)"
    using m(4,5) it by simp
  from Suc.IH [OF r w] c1 rg m(3)
  show ?case unfolding m(1)
    by (simp add: map_upt_Suc All_less_Suc2 del: upt_Suc)
qed







section \<open>A run that ends with exit status 0\<close>

lemma send_task_Return: "send_task K R slot b s = Return c s' \<Longrightarrow> c \<noteq> EXIT_SUCCESS"
  by (auto simp: send_task_def Let_def split: scan.splits if_splits)

lemma next_task_Return: "next_task K R slot s = Return c s' \<Longrightarrow> c \<noteq> EXIT_SUCCESS"
  by (cases "f_data s") (auto simp: next_task_def dest: send_task_Return)

lemma recv_result_Return: "recv_result K s \<noteq> Return c s'"
  by (cases "inbox s") (auto simp: recv_result_def Let_def split_def)

lemma steady_step_Return: "steady_step K R s = Return c s' \<Longrightarrow> c \<noteq> EXIT_SUCCESS"
  unfolding steady_step_def
  by (auto dest!: andthen_Return simp: recv_result_Return dest: next_task_Return)

lemma drain_step_Return: "drain_step K R s \<noteq> Return c s'"
  unfolding drain_step_def
  by (auto dest!: andthen_Return simp: recv_result_Return split_def split: if_splits)

lemma spawn_slot_Return: "spawn_slot R s = Return c s' \<Longrightarrow> c \<noteq> EXIT_SUCCESS"
  by (auto simp: spawn_slot_def split: if_splits)

lemma spawn_cores_Return: "spawn_cores R j s = Return c s' \<Longrightarrow> c \<noteq> EXIT_SUCCESS"
  by (induction j arbitrary: s) (auto dest!: andthen_Return dest: spawn_slot_Return)

lemma spawn_nodes_Return: "spawn_nodes R cs s = Return c s' \<Longrightarrow> c \<noteq> EXIT_SUCCESS"
  by (induction cs arbitrary: s) (auto dest!: andthen_Return dest: spawn_cores_Return)

lemma first_batch_Return: "first_batch K R n i s = Return c s' \<Longrightarrow> c \<noteq> EXIT_SUCCESS"
  by (induction n arbitrary: i s) (auto dest!: andthen_Return dest: next_task_Return)

lemma steady_Return: "steady K R n s = Return c s' \<Longrightarrow> c \<noteq> EXIT_SUCCESS"
  by (induction n arbitrary: s) (auto dest!: andthen_Return dest: steady_step_Return)

lemma drain_Return: "drain K R n s \<noteq> Return c s'"
  by (induction n arbitrary: s) (auto dest!: andthen_Return simp: drain_step_Return)

lemma andthen_success:
  assumes "andthen r f = Return EXIT_SUCCESS s"
    and "\<forall>c s'. r = Return c s' \<longrightarrow> c \<noteq> EXIT_SUCCESS"
  shows "\<exists>s1. r = Continue s1 \<and> f s1 = Return EXIT_SUCCESS s"
  using assms by (cases r) (auto simp: andthen_def)

lemma PBala_main_success:
  assumes "PBala_main K R s0 = Return EXIT_SUCCESS s"
  shows "\<exists>s1 s2 s3 s4.
      spawn_nodes R (nodeCores R) (s0\<lparr>itid := 0, total_total_time := 0, comm := [], stdio := []\<rparr>) = Continue s1
    \<and> first_batch K R (firstBatchSize R) 0 s1 = Continue s2
    \<and> steady K R (nTasks R - maxConcurrentTasks R)
        (s2\<lparr>unfinishedTasks := Some [], unfinished_tasks_present := False\<rparr>) = Continue s3
    \<and> drain K R (firstBatchSize R) s3 = Continue s4
    \<and> s = (if unfinished_tasks_present s4 then s4 else s4\<lparr>unfinishedTasks := None\<rparr>)"
proof -
  let ?s0 = "s0\<lparr>itid := 0, total_total_time := 0, comm := [], stdio := []\<rparr>"
  let ?fresh = "\<lambda>s2. s2\<lparr>unfinishedTasks := Some [], unfinished_tasks_present := False\<rparr>"
  have st: "\<And>s2. (if maxConcurrentTasks R < nTasks R
              then steady K R (nTasks R - maxConcurrentTasks R) (?fresh s2)
              else Continue (?fresh s2))
      = steady K R (nTasks R - maxConcurrentTasks R) (?fresh s2)"
    by simp
  have n1: "\<forall>c s'. spawn_nodes R (nodeCores R) ?s0 = Return c s' \<longrightarrow> c \<noteq> EXIT_SUCCESS"
    using spawn_nodes_Return by blast
  from andthen_success [OF assms [unfolded PBala_main_def st] n1]
  obtain s1 where s1: "spawn_nodes R (nodeCores R) ?s0 = Continue s1"
    and r1: "andthen (first_batch K R (firstBatchSize R) 0 s1) (\<lambda>s2.
     andthen (steady K R (nTasks R - maxConcurrentTasks R) (?fresh s2)) (\<lambda>s3.
     andthen (drain K R (firstBatchSize R) s3) (\<lambda>s4.
       Return EXIT_SUCCESS
         (if unfinished_tasks_present s4 then s4 else s4\<lparr>unfinishedTasks := None\<rparr>)))) = Return EXIT_SUCCESS s"
    by blast
  have n2: "\<forall>c s'. first_batch K R (firstBatchSize R) 0 s1 = Return c s' \<longrightarrow> c \<noteq> EXIT_SUCCESS"
    using first_batch_Return by blast
  from andthen_success [OF r1 n2]
  obtain s2 where s2: "first_batch K R (firstBatchSize R) 0 s1 = Continue s2"
    and r2: "andthen (steady K R (nTasks R - maxConcurrentTasks R) (?fresh s2)) (\<lambda>s3.
     andthen (drain K R (firstBatchSize R) s3) (\<lambda>s4.
       Return EXIT_SUCCESS
         (if unfinished_tasks_present s4 then s4 else s4\<lparr>unfinishedTasks := None\<rparr>))) = Return EXIT_SUCCESS s"
    by blast
  have n3: "\<forall>c s'. steady K R (nTasks R - maxConcurrentTasks R) (?fresh s2) = Return c s'
      \<longrightarrow> c \<noteq> EXIT_SUCCESS"
    using steady_Return by blast
  from andthen_success [OF r2 n3]
  obtain s3 where s3: "steady K R (nTasks R - maxConcurrentTasks R) (?fresh s2) = Continue s3"
    and r3: "andthen (drain K R (firstBatchSize R) s3) (\<lambda>s4.
       Return EXIT_SUCCESS
         (if unfinished_tasks_present s4 then s4 else s4\<lparr>unfinishedTasks := None\<rparr>)) = Return EXIT_SUCCESS s"
    by blast
  have dr: "\<forall>c s'. drain K R (firstBatchSize R) s3 = Return c s' \<longrightarrow> c \<noteq> EXIT_SUCCESS"
    by (simp add: drain_Return)
  from andthen_success [OF r3 dr]
  obtain s4 where s4: "drain K R (firstBatchSize R) s3 = Continue s4"
    and r4: "s = (if unfinished_tasks_present s4 then s4 else s4\<lparr>unfinishedTasks := None\<rparr>)"
    by auto
  from s1 s2 s3 s4 r4 show ?thesis by blast
qed

lemma firstBatchSize_le: "firstBatchSize R \<le> nTasks R" "firstBatchSize R \<le> maxConcurrentTasks R"
  by (simp_all add: firstBatchSize_def)

lemma steady_count: "nTasks R - maxConcurrentTasks R = nTasks R - firstBatchSize R"
  by (simp add: firstBatchSize_def)

lemma PBala_main_comm:
  assumes run: "PBala_main K R s0 = Return EXIT_SUCCESS s"
    and lines: "nTasks R \<le> length (f_data s0)"
    and slots: "\<forall>m\<in>set (take (nTasks R) (inbox s0)). has_slot m"
  shows "comm s = greetings_sent R @ first_batch_sent K R (f_data s0)
            @ steady_exchange K R (f_data s0) (inbox s0) @ drain_exchange K R (inbox s0)
    \<and> nTasks R \<le> length (inbox s0)
    \<and> (\<forall>k<nTasks R. 0 \<le> slot_of (inbox s0 ! k) \<and> slot_of (inbox s0 ! k) < int (maxConcurrentTasks R))"
proof -
  let ?N = "firstBatchSize R" and ?n = "nTasks R - firstBatchSize R"
  let ?s0 = "s0\<lparr>itid := 0, total_total_time := 0, comm := [], stdio := []\<rparr>"
  from PBala_main_success [OF run] obtain s1 s2 s3 s4 where
    s1: "spawn_nodes R (nodeCores R) ?s0 = Continue s1"
    and s2: "first_batch K R ?N 0 s1 = Continue s2"
    and s3: "steady K R ?n (s2\<lparr>unfinishedTasks := Some [], unfinished_tasks_present := False\<rparr>) = Continue s3"
    and s4: "drain K R ?N s3 = Continue s4"
    and s: "s = (if unfinished_tasks_present s4 then s4 else s4\<lparr>unfinishedTasks := None\<rparr>)"
    unfolding steady_count by blast
  have N: "?N \<le> nTasks R" by (rule firstBatchSize_le)
  have nN: "?n + ?N = nTasks R" using N by simp
  from spawn_nodes_effect [OF s1] have e1: "comm s1 = greetings_sent R"
    "f_data s1 = f_data s0" "inbox s1 = inbox s0"
    by (simp_all add: greetings_sent_def maxConcurrentTasks_def)
  have l1: "?N \<le> length (f_data s1)" using N lines e1 by simp
  from first_batch_effect [OF s2 l1] e1 have e2:
    "comm s2 = greetings_sent R @ first_batch_sent K R (f_data s0)"
    "f_data s2 = drop ?N (f_data s0)" "inbox s2 = inbox s0"
    by (simp_all add: first_batch_sent_def)
  let ?s2 = "s2\<lparr>unfinishedTasks := Some [], unfinished_tasks_present := False\<rparr>"
  have l2: "?n \<le> length (f_data ?s2)" using lines e2 by simp
  have w2: "\<forall>m\<in>set (take ?n (inbox ?s2)). has_slot m"
    using slots e2 set_take_subset_set_take [of ?n "nTasks R" "inbox s0"] by auto
  have nd: "?N \<le> length (f_data s0)" using N lines by simp
  from steady_effect [OF s3 l2 w2] e2 have e3:
    "comm s3 = greetings_sent R @ first_batch_sent K R (f_data s0)
        @ steady_exchange K R (f_data s0) (inbox s0)"
    "f_data s3 = drop ?n (drop ?N (f_data s0))" "inbox s3 = drop ?n (inbox s0)"
    "?n \<le> length (inbox s0)"
    "\<forall>k<?n. 0 \<le> slot_of (inbox s0 ! k) \<and> slot_of (inbox s0 ! k) < int (maxConcurrentTasks R)"
    by (simp_all add: steady_exchange_def nd)
  have "set (take ?N (drop ?n (inbox s0))) \<subseteq> set (take (nTasks R) (inbox s0))"
    using set_drop_subset [of ?n "take (?N + ?n) (inbox s0)"] nN
    by (simp add: take_drop add.commute)
  then have w3: "\<forall>m\<in>set (take ?N (inbox s3)). has_slot m"
    using slots e3(3) by auto
  note d = drain_effect [OF s4 w3]
  from d have "?N \<le> length (inbox s3)" by blast
  then have "?N \<le> length (inbox s0) - ?n" unfolding e3(3) by simp
  with e3(4) nN have len: "nTasks R \<le> length (inbox s0)" by linarith
  note ni = e3(4)
  from d e3 have e4: "comm s4 = greetings_sent R @ first_batch_sent K R (f_data s0)
        @ steady_exchange K R (f_data s0) (inbox s0) @ drain_exchange K R (inbox s0)"
    by (simp add: drain_exchange_def ni)
  from d e3(3) have r4: "\<forall>k<?N. 0 \<le> slot_of (inbox s0 ! (?n + k))
      \<and> slot_of (inbox s0 ! (?n + k)) < int (maxConcurrentTasks R)"
    by (simp add: ni)
  have rng: "\<forall>k<nTasks R. 0 \<le> slot_of (inbox s0 ! k) \<and> slot_of (inbox s0 ! k) < int (maxConcurrentTasks R)"
  proof (intro allI impI)
    fix k assume k: "k < nTasks R"
    show "0 \<le> slot_of (inbox s0 ! k) \<and> slot_of (inbox s0 ! k) < int (maxConcurrentTasks R)"
    proof (cases "k < ?n")
      case True
      with e3(5) show ?thesis by simp
    next
      case False
      with k nN have "k - ?n < ?N" "?n + (k - ?n) = k" by simp_all
      with r4 show ?thesis by metis
    qed
  qed
  from s have "comm s = comm s4" by simp
  with e4 len rng show ?thesis by simp
qed

lemma received_sends: "received (map (\<lambda>k. Send (f k) t (g k)) xs) = []"
  by (induction xs) simp_all

lemma ex_run: "PBala_main ex_config ex_input ex_master = Return EXIT_SUCCESS ex_final"
  by (simp add: PBala_main_def ex_config_def ex_input_def ex_master_def ex_arguments_def
      ex_final_def andthen_def maxConcurrentTasks_def firstBatchSize_def spawn_slot_def
      greeting_def next_task_def send_task_def sscanf_d_def isspace_def isdigit_def
      digits_val_def digit_val_def show_int_def show_nat.simps digit_char_def Let_def
      steady_step_def drain_step_def recv_result_def append_unfinished_def
      ST_FORK_ERR_def ST_TASK_KILLED_def eval_nat_numeral)

section \<open>A run with well-formed lines and enough results returns 0\<close>

lemma send_task_Continue:
  assumes "task_line_ok R b" and "0 \<le> slot" and "slot < int (maxConcurrentTasks R)"
  shows "\<exists>s'. send_task K R slot b s = Continue s'"
proof (cases "sscanf_d b")
  case (Scanned n)
  with assms show ?thesis
    by (simp add: task_line_ok_def send_task_def Let_def)
qed (use assms in \<open>simp_all add: task_line_ok_def\<close>)

lemma next_task_Continue:
  assumes "\<forall>l\<in>set (f_data s). task_line_ok R l" and "0 \<le> slot" and "slot < int (maxConcurrentTasks R)"
  shows "\<exists>s'. next_task K R slot s = Continue s' \<and> f_data s' = tl (f_data s) \<and> inbox s' = inbox s"
proof (cases "f_data s")
  case Nil
  then show ?thesis by (simp add: next_task_def)
next
  case (Cons b rest)
  with assms(1) have "task_line_ok R b" by simp
  from send_task_Continue [OF this assms(2,3)] obtain s' where
    s': "send_task K R slot b (s\<lparr>f_data := rest\<rparr>) = Continue s'" by blast
  then have n: "next_task K R slot s = Continue s'" using Cons by (simp add: next_task_def)
  from next_task_effect [OF n Cons] n Cons show ?thesis by simp
qed

lemma recv_result_Continue:
  assumes "inbox s = m # ms"
  shows "\<exists>s'. recv_result K s = Continue s'"
  using assms by (simp add: recv_result_def split_def Let_def)

lemma steady_step_Continue:
  assumes "inbox s = m # ms" and "names_slot R m" and "\<forall>l\<in>set (f_data s). task_line_ok R l"
  shows "\<exists>s'. steady_step K R s = Continue s' \<and> f_data s' = tl (f_data s) \<and> inbox s' = ms"
proof -
  from recv_result_Continue [OF assms(1)] obtain s1 where s1: "recv_result K s = Continue s1"
    by blast
  from recv_result_effect [OF s1] assms(1) have e: "inbox s1 = ms" "f_data s1 = f_data s"
    "itid s1 = fst (pvm_upkint (itid s) m)" by auto
  from assms(2) have it: "itid s1 = slot_of m" unfolding e(3) names_slot_def
    by (cases m rule: has_slot.cases) simp_all
  from assms(2) it have r: "0 \<le> itid s1" "itid s1 < int (maxConcurrentTasks R)"
    by (simp_all add: names_slot_def)
  have l: "\<forall>l\<in>set (f_data s1). task_line_ok R l" using assms(3) e by simp
  from next_task_Continue [OF l r] obtain s' where
    "next_task K R (itid s1) s1 = Continue s'" "f_data s' = tl (f_data s1)" "inbox s' = inbox s1"
    by blast
  with s1 e show ?thesis by (simp add: steady_step_def andthen_def)
qed

lemma drain_step_Continue:
  assumes "inbox s = m # ms" and "names_slot R m"
  shows "\<exists>s'. drain_step K R s = Continue s' \<and> f_data s' = f_data s \<and> inbox s' = ms"
proof -
  from recv_result_Continue [OF assms(1)] obtain s1 where s1: "recv_result K s = Continue s1"
    by blast
  from recv_result_effect [OF s1] assms(1) have e: "inbox s1 = ms" "f_data s1 = f_data s"
    "itid s1 = fst (pvm_upkint (itid s) m)" by auto
  from assms(2) have it: "itid s1 = slot_of m" unfolding e(3) names_slot_def
    by (cases m rule: has_slot.cases) simp_all
  from assms(2) it have r: "0 \<le> itid s1" "itid s1 < int (maxConcurrentTasks R)"
    by (simp_all add: names_slot_def)
  with s1 e show ?thesis by (simp add: drain_step_def andthen_def split_def)
qed

lemma steady_Continue:
  "n \<le> length (inbox s) \<Longrightarrow> \<forall>m\<in>set (inbox s). names_slot R m \<Longrightarrow>
   \<forall>l\<in>set (f_data s). task_line_ok R l \<Longrightarrow>
   \<exists>s'. steady K R n s = Continue s' \<and> inbox s' = drop n (inbox s)"
proof (induction n arbitrary: s)
  case 0
  then show ?case by simp
next
  case (Suc n)
  from Suc.prems(1) obtain m ms where ib: "inbox s = m # ms" by (cases "inbox s") simp_all
  with Suc.prems(2) have nm: "names_slot R m" by simp
  from steady_step_Continue [OF ib nm Suc.prems(3)] obtain s1 where
    s1: "steady_step K R s = Continue s1" "f_data s1 = tl (f_data s)" "inbox s1 = ms" by blast
  have a: "n \<le> length (inbox s1)" using Suc.prems(1) ib s1 by simp
  have b: "\<forall>m\<in>set (inbox s1). names_slot R m" using Suc.prems(2) ib s1 by simp
  have c: "\<forall>l\<in>set (f_data s1). task_line_ok R l"
    using Suc.prems(3) s1 by (cases "f_data s") simp_all
  from Suc.IH [OF a b c] s1 ib show ?case by (auto simp: andthen_def)
qed

lemma drain_Continue:
  "n \<le> length (inbox s) \<Longrightarrow> \<forall>m\<in>set (inbox s). names_slot R m \<Longrightarrow>
   \<exists>s'. drain K R n s = Continue s'"
proof (induction n arbitrary: s)
  case 0
  then show ?case by simp
next
  case (Suc n)
  from Suc.prems(1) obtain m ms where ib: "inbox s = m # ms" by (cases "inbox s") simp_all
  with Suc.prems(2) have nm: "names_slot R m" by simp
  from drain_step_Continue [OF ib nm] obtain s1 where
    s1: "drain_step K R s = Continue s1" "inbox s1 = ms" by blast
  have a: "n \<le> length (inbox s1)" using Suc.prems(1) ib s1 by simp
  have b: "\<forall>m\<in>set (inbox s1). names_slot R m" using Suc.prems(2) ib s1 by simp
  from Suc.IH [OF a b] s1 show ?case by (simp add: andthen_def)
qed

lemma first_batch_Continue:
  "\<forall>l\<in>set (f_data s). task_line_ok R l \<Longrightarrow> i + n \<le> maxConcurrentTasks R \<Longrightarrow>
   \<exists>s'. first_batch K R n i s = Continue s' \<and> set (f_data s') \<subseteq> set (f_data s)
      \<and> inbox s' = inbox s"
proof (induction n arbitrary: i s)
  case 0
  then show ?case by simp
next
  case (Suc n)
  have r: "0 \<le> int i" "int i < int (maxConcurrentTasks R)" using Suc.prems(2) by simp_all
  from next_task_Continue [OF Suc.prems(1) r] obtain s1 where
    s1: "next_task K R (int i) s = Continue s1" "f_data s1 = tl (f_data s)" "inbox s1 = inbox s"
    by blast
  have sub: "set (f_data s1) \<subseteq> set (f_data s)"
    using s1 by (cases "f_data s") auto
  with Suc.prems(1) have c: "\<forall>l\<in>set (f_data s1). task_line_ok R l" by blast
  have d: "Suc i + n \<le> maxConcurrentTasks R" using Suc.prems(2) by simp
  from Suc.IH [OF c d] obtain s' where
    "first_batch K R n (Suc i) s1 = Continue s'" "set (f_data s') \<subseteq> set (f_data s1)"
    "inbox s' = inbox s1" by blast
  with s1 sub show ?case by (auto simp: andthen_def)
qed

lemma spawn_cores_Continue:
  "0 \<le> itid s \<Longrightarrow> \<forall>k<nat (itid s) + j. numt R k = 1 \<Longrightarrow> \<exists>s'. spawn_cores R j s = Continue s'"
proof (induction j arbitrary: s)
  case 0
  then show ?case by simp
next
  case (Suc j)
  from Suc.prems have "numt R (nat (itid s)) = 1" by simp
  then obtain s1 where s1: "spawn_slot R s = Continue s1" "itid s1 = itid s + 1"
    by (simp add: spawn_slot_def)
  have a: "0 \<le> itid s1" using s1 Suc.prems(1) by simp
  have "nat (itid s1) + j = nat (itid s) + Suc j" using s1 Suc.prems(1) by simp
  with Suc.prems(2) have b: "\<forall>k<nat (itid s1) + j. numt R k = 1" by simp
  from Suc.IH [OF a b] s1 show ?case by (simp add: andthen_def)
qed

lemma spawn_nodes_Continue:
  "0 \<le> itid s \<Longrightarrow> \<forall>k<nat (itid s) + sum_list cs. numt R k = 1 \<Longrightarrow>
   \<exists>s'. spawn_nodes R cs s = Continue s'"
proof (induction cs arbitrary: s)
  case Nil
  then show ?case by simp
next
  case (Cons c cs)
  from Cons.prems have "\<forall>k<nat (itid s) + c. numt R k = 1" by simp
  from spawn_cores_Continue [OF Cons.prems(1) this] obtain s1 where
    s1: "spawn_cores R c s = Continue s1" by blast
  from spawn_cores_effect [OF s1 Cons.prems(1)] have i: "itid s1 = itid s + int c" by simp
  have a: "0 \<le> itid s1" using i Cons.prems(1) by simp
  have "nat (itid s1) + sum_list cs = nat (itid s) + sum_list (c # cs)"
    using i Cons.prems(1) by simp
  with Cons.prems(2) have b: "\<forall>k<nat (itid s1) + sum_list cs. numt R k = 1" by simp
  from Cons.IH [OF a b] s1 show ?case by (simp add: andthen_def)
qed

lemma PBala_main_returns:
  assumes spawn: "\<forall>k<maxConcurrentTasks R. numt R k = 1"
    and lines: "\<forall>l\<in>set (f_data s0). task_line_ok R l"
    and results: "\<forall>m\<in>set (inbox s0). names_slot R m"
    and enough: "nTasks R \<le> length (inbox s0)"
  shows "\<exists>s. PBala_main K R s0 = Return EXIT_SUCCESS s"
proof -
  let ?N = "firstBatchSize R" and ?n = "nTasks R - maxConcurrentTasks R"
  let ?s0 = "s0\<lparr>itid := 0, total_total_time := 0, comm := [], stdio := []\<rparr>"
  have "\<forall>k<nat (itid ?s0) + sum_list (nodeCores R). numt R k = 1"
    using spawn by (simp add: maxConcurrentTasks_def)
  from spawn_nodes_Continue [OF _ this] obtain s1 where
    s1: "spawn_nodes R (nodeCores R) ?s0 = Continue s1" by auto
  from spawn_nodes_effect [OF s1] have e1: "f_data s1 = f_data s0" "inbox s1 = inbox s0"
    by simp_all
  have l1: "\<forall>l\<in>set (f_data s1). task_line_ok R l" using lines e1 by simp
  have "0 + ?N \<le> maxConcurrentTasks R" using firstBatchSize_le(2) by simp
  from first_batch_Continue [OF l1 this] obtain s2 where
    s2: "first_batch K R ?N 0 s1 = Continue s2" "set (f_data s2) \<subseteq> set (f_data s1)"
    "inbox s2 = inbox s1" by blast
  let ?s2 = "s2\<lparr>unfinishedTasks := Some [], unfinished_tasks_present := False\<rparr>"
  have l2: "\<forall>l\<in>set (f_data ?s2). task_line_ok R l" using l1 s2(2) by auto
  have r2: "\<forall>m\<in>set (inbox ?s2). names_slot R m" using results s2(3) e1 by simp
  have n2: "?n \<le> length (inbox ?s2)" using enough s2(3) e1 by simp
  from steady_Continue [OF n2 r2 l2] obtain s3 where
    s3: "steady K R ?n ?s2 = Continue s3" "inbox s3 = drop ?n (inbox ?s2)" by blast
  have r3: "\<forall>m\<in>set (inbox s3). names_slot R m"
    using r2 s3(2) by (auto dest: in_set_dropD)
  have nn: "?N + ?n \<le> nTasks R" by (simp add: firstBatchSize_def)
  have "length (inbox s3) = length (inbox s0) - ?n" using s3(2) s2(3) e1 by simp
  with nn enough have n3: "?N \<le> length (inbox s3)" by linarith
  from drain_Continue [OF n3 r3] obtain s4 where s4: "drain K R ?N s3 = Continue s4" by blast
  have st: "\<And>x. (if maxConcurrentTasks R < nTasks R then steady K R ?n x else Continue x)
      = steady K R ?n x"
    by simp
  from s1 s2(1) s3(1) s4 show ?thesis
    unfolding PBala_main_def st by (simp add: andthen_def)
qed

section \<open>The file of unfinished tasks\<close>




section \<open>The order in which tasks are handed out\<close>

text \<open>
  Claim C6. Let every spawn succeed, let the data file have at least \<^verbatim>\<open>nTasks\<close>
  lines, each a task id followed by its arguments (or by the end of the line), and
  let at least \<^verbatim>\<open>nTasks\<close> results arrive, each naming a slot. Then the run returns 0, and the
  master has sent and received exactly this, in this order: a greeting to every slot;
  the first \<open>N = min nTasks \<Sigma>cores\<close> lines as work messages, the line \<open>i\<close> to the slot
  \<open>i\<close>; for each of the \<open>nTasks - N\<close> lines left, one result received and then that
  line as a work message to the slot named in the result; and \<open>N\<close> more results, each
  answered with a stop.
\<close>

theorem first_batch_then_one_task_per_result:
  assumes spawn: "\<forall>k<maxConcurrentTasks R. numt R k = 1"
    and lines: "\<forall>l\<in>set (f_data s0). task_line_ok R l"
    and count: "nTasks R \<le> length (f_data s0)"
    and results: "\<forall>m\<in>set (inbox s0). names_slot R m"
    and enough: "nTasks R \<le> length (inbox s0)"
  shows "\<exists>s. PBala_main K R s0 = Return EXIT_SUCCESS s
    \<and> comm s = greetings_sent R @ first_batch_sent K R (f_data s0)
            @ steady_exchange K R (f_data s0) (inbox s0) @ drain_exchange K R (inbox s0)
    \<and> firstBatchSize R = min (nTasks R) (maxConcurrentTasks R)
    \<and> length (first_batch_sent K R (f_data s0)) = firstBatchSize R
    \<and> length (steady_exchange K R (f_data s0) (inbox s0)) = 2 * (nTasks R - firstBatchSize R)"
proof -
  from PBala_main_returns [OF spawn lines results enough] obtain s where
    run: "PBala_main K R s0 = Return EXIT_SUCCESS s" by blast
  have slots: "\<forall>m\<in>set (take (nTasks R) (inbox s0)). has_slot m"
    using results by (auto simp: names_slot_def dest: in_set_takeD)
  have "length (steady_exchange K R (f_data s0) (inbox s0)) = 2 * (nTasks R - firstBatchSize R)"
    by (simp add: steady_exchange_def length_concat comp_def sum_list_triv)
  moreover have "firstBatchSize R = min (nTasks R) (maxConcurrentTasks R)"
    by (simp add: firstBatchSize_def min_def)
  ultimately show ?thesis
    using PBala_main_comm [OF run count slots] run by (simp add: first_batch_sent_def)
qed

theorem first_batch_then_one_task_per_result_witness:
  "\<exists>s. PBala_main ex_config ex_input ex_master = Return EXIT_SUCCESS s
   \<and> comm s =
        [Send 0 MSG_GREETING [PInt 0, PInt 1, PLong 0, PInt 0, PInt 0, PInt 0],
         Send 1 MSG_GREETING [PInt 1, PInt 1, PLong 0, PInt 0, PInt 0, PInt 0],
         Send 0 MSG_WORK [PInt 1, PInt 1, PStr ''prog'', PStr ''out'', PStr ''a,b''],
         Send 1 MSG_WORK [PInt 1, PInt 7, PStr ''prog'', PStr ''out'', PStr ''7,c''],
         Recv [PInt 1, PInt 7, PInt 0, PStr ''c'', PDouble 3],
         Send 1 MSG_WORK [PInt 1, PInt 3, PStr ''prog'', PStr ''out'', PStr ''d,e''],
         Recv [PInt 0, PInt 1, PInt 11, PStr ''a,b'', PDouble 2, PDouble 10],
         Send 0 MSG_STOP [PInt 4],
         Recv [PInt 1, PInt 3, PInt 10, PStr ''d,e'', PDouble 7],
         Send 1 MSG_STOP [PInt 4]]"
proof -
  have n: "firstBatchSize ex_input = 2" "maxConcurrentTasks ex_input = 2"
    by (simp_all add: firstBatchSize_def maxConcurrentTasks_def ex_input_def)
  have spawn: "\<forall>k<maxConcurrentTasks ex_input. numt ex_input k = 1"
    by (simp add: ex_input_def)
  have lines: "\<forall>l\<in>set (f_data ex_master). task_line_ok ex_input l"
    by (simp add: ex_master_def ex_input_def task_line_ok_def sscanf_d_def isspace_def
        isdigit_def digits_val_def digit_val_def show_int_def show_nat.simps digit_char_def
        Let_def)
  have count: "nTasks ex_input \<le> length (f_data ex_master)"
    by (simp add: ex_input_def ex_master_def)
  have results: "\<forall>m\<in>set (inbox ex_master). names_slot ex_input m"
    by (simp add: ex_master_def names_slot_def n)
  have enough: "nTasks ex_input \<le> length (inbox ex_master)"
    by (simp add: ex_input_def ex_master_def)
  have ev: "greetings_sent ex_input @ first_batch_sent ex_config ex_input (f_data ex_master)
            @ steady_exchange ex_config ex_input (f_data ex_master) (inbox ex_master)
            @ drain_exchange ex_config ex_input (inbox ex_master) =
        [Send 0 MSG_GREETING [PInt 0, PInt 1, PLong 0, PInt 0, PInt 0, PInt 0],
         Send 1 MSG_GREETING [PInt 1, PInt 1, PLong 0, PInt 0, PInt 0, PInt 0],
         Send 0 MSG_WORK [PInt 1, PInt 1, PStr ''prog'', PStr ''out'', PStr ''a,b''],
         Send 1 MSG_WORK [PInt 1, PInt 7, PStr ''prog'', PStr ''out'', PStr ''7,c''],
         Recv [PInt 1, PInt 7, PInt 0, PStr ''c'', PDouble 3],
         Send 1 MSG_WORK [PInt 1, PInt 3, PStr ''prog'', PStr ''out'', PStr ''d,e''],
         Recv [PInt 0, PInt 1, PInt 11, PStr ''a,b'', PDouble 2, PDouble 10],
         Send 0 MSG_STOP [PInt 4],
         Recv [PInt 1, PInt 3, PInt 10, PStr ''d,e'', PDouble 7],
         Send 1 MSG_STOP [PInt 4]]"
    unfolding greetings_sent_def first_batch_sent_def steady_exchange_def drain_exchange_def n
    by (simp add: ex_input_def ex_master_def ex_config_def ex_arguments_def
        maxConcurrentTasks_def greeting_def work_message_def sscanf_d_def isspace_def
        isdigit_def digits_val_def digit_val_def show_int_def show_nat.simps digit_char_def
        Let_def upt_rec)
  from first_batch_then_one_task_per_result [OF spawn lines count results enough, of ex_config]
  show ?thesis unfolding ev by blast
qed

section \<open>What each slot is sent\<close>

lemma tags_to_sends:
  "tags_to k (map (\<lambda>j. Send j t (g j)) [0..<n]) = (if k < n then [t] else [])"
  by (induction n) (auto simp: tags_to_append)

lemma tags_to_exchange:
  "tags_to k (concat (map (\<lambda>j. [Recv (r j), Send (f j) t (g j)]) js))
     = replicate (length (filter (\<lambda>j. f j = k) js)) t"
  by (induction js) auto

lemma received_exchange:
  "received (concat (map (\<lambda>j. [Recv (r j), Send (f j) t (g j)]) js)) = map r js"
  by (induction js) auto

lemma length_filter_upt: "length (filter P [0..<n]) = card {j. j < n \<and> P j}"
proof -
  have "{x. P x} \<inter> set [0..<n] = {j. j < n \<and> P j}" by auto
  then show ?thesis using distinct_length_filter [of "[0..<n]" P] by simp
qed

lemma fibers_sum:
  fixes f :: "nat \<Rightarrow> nat"
  assumes "\<forall>j<n. f j < m"
  shows "(\<Sum>k<m. length (filter (\<lambda>j. f j = k) [0..<n])) = n"
proof -
  have "(\<Sum>k\<in>{..<m}. \<Sum>j\<in>{j. j \<in> {..<n} \<and> f j = k}. (1::nat)) = (\<Sum>j\<in>{..<n}. 1)"
    by (rule sum.group) (use assms in auto)
  moreover have "\<And>k. length (filter (\<lambda>j. f j = k) [0..<n]) = (\<Sum>j\<in>{j. j \<in> {..<n} \<and> f j = k}. (1::nat))"
    by (simp add: length_filter_upt)
  ultimately show ?thesis by simp
qed

lemma one_each:
  fixes f :: "nat \<Rightarrow> nat"
  assumes rng: "\<forall>j<n. f j < m" and nm: "n \<le> m"
    and le: "\<forall>k<m. length (filter (\<lambda>j. f j = k) [0..<n]) \<le> (if k < n then 1 else 0)"
    and k: "k < m"
  shows "length (filter (\<lambda>j. f j = k) [0..<n]) = (if k < n then 1 else 0)"
proof -
  have "{..<m} \<inter> {k. k < n} = {..<n}" using nm by auto
  then have "(\<Sum>k<m. if k < n then 1 else (0::nat)) = n"
    by (simp add: sum.If_cases)
  with fibers_sum [OF rng]
  have eq: "(\<Sum>k<m. length (filter (\<lambda>j. f j = k) [0..<n])) = (\<Sum>k<m. if k < n then 1 else 0)"
    by simp
  show ?thesis
    by (rule sum_mono_inv [OF eq, of k]) (use le k in auto)
qed

lemma slot_sequence:
  assumes run: "PBala_main K R s0 = Return EXIT_SUCCESS s"
    and lines: "nTasks R \<le> length (f_data s0)"
    and slots: "\<forall>m\<in>set (take (nTasks R) (inbox s0)). has_slot m"
    and causal: "\<forall>k<maxConcurrentTasks R. results_from k (comm s) \<le> works_to k (comm s)"
    and k: "k < maxConcurrentTasks R"
  shows "tags_to k (comm s) =
      MSG_GREETING # replicate (results_from k (comm s)) MSG_WORK
        @ (if k < firstBatchSize R then [MSG_STOP] else [])"
    and "\<not> k < firstBatchSize R \<Longrightarrow> tags_to k (comm s) = [MSG_GREETING]"
proof -
  let ?N = "firstBatchSize R" and ?n = "nTasks R - firstBatchSize R"
  let ?M = "maxConcurrentTasks R"
  let ?f = "\<lambda>j. nat (slot_of (inbox s0 ! j))"
  let ?g = "\<lambda>j. nat (slot_of (inbox s0 ! (?n + j)))"
  let ?a = "\<lambda>k. length (filter (\<lambda>j. ?f j = k) [0..<?n])"
  let ?d = "\<lambda>k. length (filter (\<lambda>j. ?g j = k) [0..<?N])"
  note c = PBala_main_comm [OF run lines slots]
  from c have cs: "comm s = greetings_sent R @ first_batch_sent K R (f_data s0)
            @ steady_exchange K R (f_data s0) (inbox s0) @ drain_exchange K R (inbox s0)"
    and rng: "\<forall>j<nTasks R. 0 \<le> slot_of (inbox s0 ! j) \<and> slot_of (inbox s0 ! j) < int ?M"
    by blast+
  have N: "?N \<le> nTasks R" "?N \<le> ?M" by (rule firstBatchSize_le)+
  have tags: "\<And>i. i < ?M \<Longrightarrow> tags_to i (comm s) =
      MSG_GREETING # (if i < ?N then [MSG_WORK] else []) @ replicate (?a i) MSG_WORK
        @ replicate (?d i) MSG_STOP"
    unfolding cs greetings_sent_def first_batch_sent_def steady_exchange_def drain_exchange_def
    by (simp add: tags_to_append tags_to_sends tags_to_exchange)
  have works: "\<And>i. i < ?M \<Longrightarrow> works_to i (comm s) = (if i < ?N then 1 else 0) + ?a i"
    unfolding works_to_def by (simp add: tags)
  have rs: "\<And>i. results_from i (comm s) = ?a i + ?d i"
  proof -
    fix i
    have r: "received (comm s) = map (\<lambda>j. inbox s0 ! j) [0..<?n] @ map (\<lambda>j. inbox s0 ! (?n + j)) [0..<?N]"
      unfolding cs greetings_sent_def first_batch_sent_def steady_exchange_def drain_exchange_def
      by (simp add: received_append received_sends received_exchange)
    have a: "filter (\<lambda>j. slot_of (inbox s0 ! j) = int i) [0..<?n] = filter (\<lambda>j. ?f j = i) [0..<?n]"
      by (rule filter_cong) (use rng in auto)
    have d: "filter (\<lambda>j. slot_of (inbox s0 ! (?n + j)) = int i) [0..<?N] = filter (\<lambda>j. ?g j = i) [0..<?N]"
    proof (rule filter_cong)
      fix j assume "j \<in> set [0..<?N]"
      then have "?n + j < nTasks R" using N by simp
      with rng have "0 \<le> slot_of (inbox s0 ! (?n + j))" by blast
      then show "(slot_of (inbox s0 ! (?n + j)) = int i) = (?g j = i)" by auto
    qed simp
    show "results_from i (comm s) = ?a i + ?d i"
      unfolding results_from_def r by (simp add: filter_map comp_def a d)
  qed
  have dr: "\<forall>j<?N. ?g j < ?M"
  proof (intro allI impI)
    fix j assume "j < ?N"
    then have "?n + j < nTasks R" using N by simp
    with rng show "?g j < ?M" by auto
  qed
  have le: "\<forall>i<?M. ?d i \<le> (if i < ?N then 1 else 0)"
  proof (intro allI impI)
    fix i assume i: "i < ?M"
    with causal have "results_from i (comm s) \<le> works_to i (comm s)" by blast
    then show "?d i \<le> (if i < ?N then 1 else 0)" unfolding rs works [OF i] by simp
  qed
  have dk: "?d k = (if k < ?N then 1 else 0)"
    by (rule one_each [OF dr N(2) le k])
  show "tags_to k (comm s) =
      MSG_GREETING # replicate (results_from k (comm s)) MSG_WORK
        @ (if k < firstBatchSize R then [MSG_STOP] else [])"
    unfolding tags [OF k] rs dk
    by (simp add: replicate_add replicate_append_same)
  show "tags_to k (comm s) = [MSG_GREETING]" if nk: "\<not> k < firstBatchSize R"
  proof -
    from nk k have "?N < ?M" by simp
    then have "?n = 0" by (simp add: firstBatchSize_def split: if_splits)
    with nk dk show ?thesis unfolding tags [OF k] by simp
  qed
qed

text \<open>
  Claim C2, as the code has it. Take a run that ends with exit status 0, on a data
  file of at least \<^verbatim>\<open>nTasks\<close> lines, in which every result carries the index of its
  slot and no slot returns more results than the work messages it was sent. Then every
  slot in \<open>[0, \<Sigma>cores)\<close> is sent exactly one greeting, then as many work messages as
  results are received from it, and then, when it is one of the first
  \<open>min nTasks \<Sigma>cores\<close> slots, exactly one stop. A slot beyond these (there is one as soon
  as the data file has fewer lines than there are slots) is sent the greeting and
  nothing else: no work and no stop.
\<close>

theorem each_slot_greeting_works_stop:
  assumes run: "PBala_main K R s0 = Return EXIT_SUCCESS s"
    and lines: "nTasks R \<le> length (f_data s0)"
    and slots: "\<forall>m\<in>set (take (nTasks R) (inbox s0)). has_slot m"
    and causal: "\<forall>k<maxConcurrentTasks R. results_from k (comm s) \<le> works_to k (comm s)"
    and k: "k < maxConcurrentTasks R"
  shows "tags_to k (comm s) =
      MSG_GREETING # replicate (results_from k (comm s)) MSG_WORK
        @ (if k < firstBatchSize R then [MSG_STOP] else [])
    \<and> (if k < firstBatchSize R then works_to k (comm s) = results_from k (comm s)
        else tags_to k (comm s) = [MSG_GREETING])"
proof -
  note t = slot_sequence [OF run lines slots causal k]
  have "works_to k (comm s) = results_from k (comm s)"
    unfolding works_to_def t(1) by simp
  with t show ?thesis by simp
qed

theorem each_slot_greeting_works_stop_witness:
  "PBala_main ex_config ex_input ex_master = Return EXIT_SUCCESS ex_final
   \<and> results_from 1 (comm ex_final) = 2
   \<and> tags_to 1 (comm ex_final) = [MSG_GREETING, MSG_WORK, MSG_WORK, MSG_STOP]
   \<and> works_to 1 (comm ex_final) = 2"
proof -
  have lines: "nTasks ex_input \<le> length (f_data ex_master)"
    by (simp add: ex_input_def ex_master_def)
  have slots: "\<forall>m\<in>set (take (nTasks ex_input) (inbox ex_master)). has_slot m"
    by (simp add: ex_input_def ex_master_def)
  have m: "maxConcurrentTasks ex_input = 2" "firstBatchSize ex_input = 2"
    by (simp_all add: firstBatchSize_def maxConcurrentTasks_def ex_input_def)
  have r: "results_from 0 (comm ex_final) = 1" "results_from 1 (comm ex_final) = 2"
    by (simp_all add: results_from_def ex_final_def)
  have w: "works_to 0 (comm ex_final) = 1" "works_to (Suc 0) (comm ex_final) = 2"
    by (simp_all add: works_to_def ex_final_def)
  have causal: "\<forall>k<maxConcurrentTasks ex_input.
      results_from k (comm ex_final) \<le> works_to k (comm ex_final)"
    unfolding m using r w by (simp add: less_Suc_eq eval_nat_numeral)
  have k: "1 < maxConcurrentTasks ex_input" unfolding m by simp
  from each_slot_greeting_works_stop [OF ex_run lines slots causal k]
  have "tags_to 1 (comm ex_final) = [MSG_GREETING, MSG_WORK, MSG_WORK, MSG_STOP]
      \<and> works_to 1 (comm ex_final) = 2"
    unfolding m r by (simp add: eval_nat_numeral)
  with ex_run r show ?thesis by simp
qed

text \<open>
  Two slots and a data file of one line: the run ends with exit status 0, and slot 1
  has been sent its greeting and nothing after it, so no stop.
\<close>

theorem idle_slot_gets_no_stop:
  "PBala_main ex_config one_task_input one_task_master = Return EXIT_SUCCESS one_task_final
   \<and> maxConcurrentTasks one_task_input = 2
   \<and> tags_to 1 (comm one_task_final) = [MSG_GREETING]
   \<and> tags_to 0 (comm one_task_final) = [MSG_GREETING, MSG_WORK, MSG_STOP]"
  by (simp add: PBala_main_def ex_config_def ex_input_def ex_master_def ex_arguments_def
      one_task_input_def one_task_master_def one_task_final_def
      andthen_def maxConcurrentTasks_def firstBatchSize_def spawn_slot_def
      greeting_def next_task_def send_task_def sscanf_d_def isspace_def isdigit_def
      digits_val_def digit_val_def show_int_def show_nat.simps digit_char_def Let_def
      steady_step_def drain_step_def recv_result_def append_unfinished_def
      ST_FORK_ERR_def ST_TASK_KILLED_def eval_nat_numeral)

section \<open>The argument string of a task\<close>

text \<open>
  When the task id stands in the line exactly as \<^verbatim>\<open>sprintf\<close> prints it, followed
  by the comma, the count of its characters is right and the argument string is what
  follows the first comma.
\<close>

lemma digit_char_cases:
  assumes "d < 10"
  shows "digit_char d \<in> set ''0123456789''"
proof -
  from assms have "d \<in> {0,1,2,3,4,5,6,7,8,9}" by auto
  then show ?thesis by (auto simp: digit_char_def)
qed

lemma isdigit_digit_char: "d < 10 \<Longrightarrow> isdigit (digit_char d)"
  using digit_char_cases by (simp add: isdigit_def)

lemma digit_val_digit_char: "d < 10 \<Longrightarrow> digit_val (digit_char d) = d"
proof -
  assume "d < 10"
  then have "d \<in> {0,1,2,3,4,5,6,7,8,9}" by auto
  then show ?thesis by (auto simp: digit_char_def digit_val_def)
qed

lemma isdigit_show_nat: "\<forall>c\<in>set (show_nat n). isdigit c"
proof (induction n rule: show_nat.induct)
  case (1 n)
  show ?case
  proof (cases "n < 10")
    case True
    then show ?thesis by (subst show_nat.simps) (simp add: isdigit_digit_char)
  next
    case False
    with 1 show ?thesis by (subst show_nat.simps) (simp add: isdigit_digit_char)
  qed
qed

lemma show_nat_not_Nil: "show_nat n \<noteq> []"
  by (subst show_nat.simps) simp

lemma digits_val_snoc: "digits_val (ds @ [c]) = 10 * digits_val ds + digit_val c"
  by (simp add: digits_val_def)

lemma digits_val_show_nat: "digits_val (show_nat n) = n"
proof (induction n rule: show_nat.induct)
  case (1 n)
  show ?case
  proof (cases "n < 10")
    case True
    then show ?thesis
      by (subst show_nat.simps) (simp add: digits_val_def digit_val_digit_char)
  next
    case False
    with 1 show ?thesis
      by (subst show_nat.simps) (simp add: digits_val_snoc digit_val_digit_char)
  qed
qed

lemma isdigit_facts:
  "\<not> isdigit (CHR '','')" "isdigit c \<Longrightarrow> \<not> isspace c" "isdigit c \<Longrightarrow> c \<noteq> CHR ''-''"
  "isdigit c \<Longrightarrow> c \<noteq> CHR ''+''" "isdigit c \<Longrightarrow> c \<noteq> CHR '',''" "\<not> isspace (CHR ''-'')"
  by (auto simp: isdigit_def isspace_def)

lemma takeWhile_digits:
  "takeWhile isdigit (show_nat n @ CHR '','' # rest) = show_nat n"
  using isdigit_show_nat [of n] by (simp add: takeWhile_append2 isdigit_facts(1))

lemma sscanf_d_show_int:
  assumes "- 2147483648 \<le> n" and "n \<le> 2147483647"
  shows "sscanf_d (show_int n @ CHR '','' # rest) = Scanned n"
proof (cases "n < 0")
  case True
  then show ?thesis using assms
    by (simp add: sscanf_d_def show_int_def isdigit_facts takeWhile_digits
        digits_val_show_nat show_nat_not_Nil Let_def)
next
  case False
  obtain c cs where sn: "show_nat (nat n) = c # cs"
    using show_nat_not_Nil [of "nat n"] by (cases "show_nat (nat n)") simp_all
  with isdigit_show_nat [of "nat n"] have c: "isdigit c" by simp
  have tw: "takeWhile isdigit (c # cs @ CHR '','' # rest) = c # cs"
    using takeWhile_digits [of "nat n" rest] unfolding sn by simp
  from tw c have tw': "takeWhile isdigit (cs @ CHR '','' # rest) = cs" by simp
  have dv: "digits_val (c # cs) = nat n" using digits_val_show_nat [of "nat n"] unfolding sn .
  from False assms show ?thesis
    by (simp add: sscanf_d_def show_int_def sn isdigit_facts c tw' dv Let_def)
qed

lemma show_int_no_comma: "CHR '','' \<notin> set (show_int n)"
  using isdigit_show_nat isdigit_facts(5) by (auto simp: show_int_def)

lemma canonical_line_arguments:
  assumes "- 2147483648 \<le> n" and "n \<le> 2147483647"
  shows "work_message K R (show_int n @ '','' @ args @ [CHR 0x0A]) =
      [PInt (tag_value K MSG_GREETING), PInt n, PStr (inp_programFile R), PStr (out_dir R),
       PStr args]"
    and "after_first_comma (show_int n @ '','' @ args @ [CHR 0x0A]) = args"
proof -
  have b: "butlast (show_int n @ '','' @ args @ [CHR 0x0A]) = show_int n @ '','' @ args"
    using butlast_snoc [of "show_int n @ '','' @ args" "CHR 0x0A"] by simp
  show "work_message K R (show_int n @ '','' @ args @ [CHR 0x0A]) =
      [PInt (tag_value K MSG_GREETING), PInt n, PStr (inp_programFile R), PStr (out_dir R),
       PStr args]"
    unfolding work_message_def b using sscanf_d_show_int [OF assms, of "args @ [CHR 0x0A]"]
    by simp
  have d: "dropWhile (\<lambda>c. c \<noteq> CHR '','') (show_int n @ '','' @ args) = '','' @ args"
    using show_int_no_comma [of n] by (auto simp: dropWhile_append3)
  show "after_first_comma (show_int n @ '','' @ args @ [CHR 0x0A]) = args"
    unfolding after_first_comma_def using b d by simp
qed

text \<open>
  Claim C7, at the line \<open>007,1,2\<close>. Any other spelling of the id makes the count
  wrong. Here the master scans the task id 7, prints it again as \<open>7\<close> to count one
  character, and copies the line from its third character on: the worker receives
  \<open>7,1,2\<close> as the argument string, where the line after its first comma is \<open>1,2\<close>.
\<close>

theorem leading_zeros_stay_in_arguments:
  "send_task ex_config ex_input 0 (''007,1,2'' @ [CHR 0x0A]) ex_master =
     Continue (ex_master\<lparr>taskNumber := 7, aux_str := ''7,1,2'',
       comm := [Send 0 MSG_WORK [PInt 1, PInt 7, PStr ''prog'', PStr ''out'', PStr ''7,1,2'']],
       stdio := [TASK_SENT 7]\<rparr>)
   \<and> w_arguments (upk_work
         (fst (upk_work_code ex_vars [PInt 1, PInt 7, PStr ''prog'', PStr ''out'', PStr ''7,1,2'']))
         (snd (upk_work_code ex_vars [PInt 1, PInt 7, PStr ''prog'', PStr ''out'', PStr ''7,1,2''])))
       = ''7,1,2''
   \<and> after_first_comma (''007,1,2'' @ [CHR 0x0A]) = ''1,2''"
  by (simp add: send_task_def sscanf_d_def isspace_def isdigit_def digits_val_def digit_val_def
      show_int_def show_nat.simps digit_char_def Let_def ex_config_def ex_input_def
      ex_master_def ex_arguments_def maxConcurrentTasks_def upk_work_def upk_work_code_def
      after_first_comma_def)

end
